theory Spec2Isabelle
  imports Main "HOL-Library.Word" "HOL-Library.Log_Nat"
begin

unbundle bit_operations_syntax

section \<open>NRF52Pin: data model\<close>

text \<open>
  The embedding follows \<^verbatim>\<open>source/NRF52Pin.cpp\<close>. A pin is the C++ object together
  with the hardware registers of the GPIO port that the macro \<^verbatim>\<open>PORT\<close> selects for it,
  the static members of the class (the PWM channel pool) and what the class reads from
  its PWM collaborator: \<open>sampleRange\<close> and \<open>periodUs\<close> are the answers of
  \<^verbatim>\<open>pwm->getSampleRange()\<close> and \<^verbatim>\<open>pwm->getPeriodUs()\<close>, and \<open>played\<close> lists the buffers
  handed to \<^verbatim>\<open>pwmSource->playAsync\<close>. In the same way \<open>ownerCalls\<close> lists, in the order
  in which the pin makes them, its calls of \<^verbatim>\<open>Pin::connect(p, deleteOnRelease)\<close>, which
  hands the pin to the peripheral \<open>p\<close>, and of \<^verbatim>\<open>obj->releasePin(*this)\<close>, which takes it
  back from the owner.

  Registers are storage cells; the set/clear registers \<^verbatim>\<open>OUTSET\<close>, \<^verbatim>\<open>OUTCLR\<close> and
  \<^verbatim>\<open>DIRSET\<close> act on \<^verbatim>\<open>OUT\<close> and \<^verbatim>\<open>DIR\<close> as the nRF52 does: a written 1 sets (clears)
  the bit, a written 0 leaves it alone. \<^verbatim>\<open>IN\<close> holds the levels that a read samples.
  \<^verbatim>\<open>DIR\<close> and the direction bit of \<^verbatim>\<open>PIN_CNF\<close> are kept as separate cells. The status
  word is kept in 32 bits; the code only combines it bitwise with the flags, so its
  width plays no part.
\<close>

type_synonym u32 = "32 word"
type_synonym u16 = "16 word"

text \<open>A peripheral is identified by the address of its \<^verbatim>\<open>PinPeripheral\<close> object.\<close>

type_synonym peripheral = nat

text \<open>The status codes of \<^verbatim>\<open>ErrorNo.h\<close>; \<^verbatim>\<open>DEVICE_OK\<close> is the code 0.\<close>

datatype device_result =
  DEVICE_OK | DEVICE_INVALID_PARAMETER | DEVICE_NOT_SUPPORTED | DEVICE_BUSY

datatype owner_call = PinConnect peripheral | ReleasePin peripheral

record gpio_port =
  PIN_CNF :: "nat \<Rightarrow> u32"
  OUT :: u32
  DIR :: u32
  IN :: u32
  LATCH :: u32

record pin_state =
  name :: nat
  capability :: u32
  status :: u32
  obj :: "peripheral option"
  deleteOnRelease :: bool
  pinLock :: "peripheral \<Rightarrow> bool"
  port :: gpio_port
  pwmSource :: bool
  pwm :: "peripheral option"
  pwmBuffer :: "u16 list"
  pwmChannelMap :: "int list"
  lastUsedChannel :: nat
  sampleRange :: int
  periodUs :: nat
  played :: "u16 list list"
  ownerCalls :: "owner_call list"

text \<open>
  The constants of the headers that are not part of the sources at hand
  (\<^verbatim>\<open>Pin.h\<close>, \<^verbatim>\<open>NRF52Pin.h\<close>, \<^verbatim>\<open>NRF52PWM.h\<close>) are parameters of the model, and so is the
  virtual method \<^verbatim>\<open>PinPeripheral::releasePin\<close>, which each peripheral overrides: it is
  an arbitrary transformer of the whole state, so that a release callback that
  re-enters the pin is covered. The methods of the PWM driver that change something
  (its constructor, \<^verbatim>\<open>connectPin\<close>, \<^verbatim>\<open>setPeriodUs\<close>) are parameters of the same kind.
\<close>

record platform =
  IO_STATUS_DIGITAL_IN :: u32
  IO_STATUS_DIGITAL_OUT :: u32
  IO_STATUS_ANALOG_OUT :: u32
  IO_STATUS_EVENT_ON_EDGE :: u32
  IO_STATUS_EVENT_PULSE_ON_EDGE :: u32
  IO_STATUS_INTERRUPT_ON_EDGE :: u32
  IO_STATUS_WAKE_ON_ACTIVE :: u32
  IO_STATUS_DISCONNECTING :: u32
  IO_STATUS_MODES :: u32
  PIN_CAPABILITY_ANALOG :: u32
  NRF52PWM_PWM_CHANNELS :: nat
  DEVICE_PIN_MAX_OUTPUT :: int
  DEVICE_PIN_MAX_SERVO_RANGE :: int
  releasePin :: "peripheral \<Rightarrow> pin_state \<Rightarrow> pin_state"
  new_NRF52PWM :: "pin_state \<Rightarrow> pin_state"
  pwm_connectPin :: "nat \<Rightarrow> pin_state \<Rightarrow> pin_state"
  pwm_setPeriodUs :: "nat \<Rightarrow> pin_state \<Rightarrow> pin_state"

text \<open>\<^verbatim>\<open>GPIO_PIN_CNF_SENSE_Msk\<close> of the vendor's register header: the two SENSE bits.\<close>

definition GPIO_PIN_CNF_SENSE_Msk :: u32 where
  "GPIO_PIN_CNF_SENSE_Msk = 0x00030000"

text \<open>
  The macro \<^verbatim>\<open>PIN\<close>: \<^verbatim>\<open>name & 31\<close> on a chip with a second port, and \<^verbatim>\<open>name\<close>, which is
  below 32 there, on a chip with one.
\<close>

definition PIN :: "pin_state \<Rightarrow> nat" where
  "PIN s = name s mod 32"

definition pin_mask :: "pin_state \<Rightarrow> u32" where
  "pin_mask s = push_bit (PIN s) 1"

definition set_PIN_CNF :: "u32 \<Rightarrow> pin_state \<Rightarrow> pin_state" where
  "set_PIN_CNF v s = s\<lparr>port := (port s)\<lparr>PIN_CNF := (PIN_CNF (port s))(PIN s := v)\<rparr>\<rparr>"

definition get_PIN_CNF :: "pin_state \<Rightarrow> u32" where
  "get_PIN_CNF s = PIN_CNF (port s) (PIN s)"

definition write_OUTSET :: "u32 \<Rightarrow> pin_state \<Rightarrow> pin_state" where
  "write_OUTSET m s = s\<lparr>port := (port s)\<lparr>OUT := OUT (port s) OR m\<rparr>\<rparr>"

definition write_OUTCLR :: "u32 \<Rightarrow> pin_state \<Rightarrow> pin_state" where
  "write_OUTCLR m s = s\<lparr>port := (port s)\<lparr>OUT := OUT (port s) AND NOT m\<rparr>\<rparr>"

definition write_DIRSET :: "u32 \<Rightarrow> pin_state \<Rightarrow> pin_state" where
  "write_DIRSET m s = s\<lparr>port := (port s)\<lparr>DIR := DIR (port s) OR m\<rparr>\<rparr>"

section \<open>Peripheral ownership: connect and disconnect\<close>

text \<open>
  Modelled from the spec: \<^verbatim>\<open>Pin::isDisconnecting\<close> of the base class is missing; the
  spec calls it the "disconnecting" re-entrancy flag, which \<^verbatim>\<open>disconnect\<close> raises in
  \<^verbatim>\<open>status\<close> as \<^verbatim>\<open>IO_STATUS_DISCONNECTING\<close>.
\<close>

definition isDisconnecting :: "platform \<Rightarrow> pin_state \<Rightarrow> bool" where
  "isDisconnecting c s \<longleftrightarrow> status s AND IO_STATUS_DISCONNECTING c \<noteq> 0"

text \<open>
  Modelled from the spec: \<^verbatim>\<open>Pin::connect\<close> of the base class is missing; the spec says
  that it records the new owner (and whether it is deleted on release). The call is
  entered in \<open>ownerCalls\<close>.
\<close>

definition Pin_connect :: "peripheral \<Rightarrow> bool \<Rightarrow> pin_state \<Rightarrow> pin_state" where
  "Pin_connect p del s =
     s\<lparr>obj := Some p, deleteOnRelease := del, ownerCalls := ownerCalls s @ [PinConnect p]\<rparr>"

text \<open>
  The loop of \<^verbatim>\<open>disconnect\<close> over the channel map: every entry that holds this pin's
  name is set to \<^verbatim>\<open>-1\<close>.
\<close>

definition free_channels :: "nat \<Rightarrow> int \<Rightarrow> int list \<Rightarrow> int list" where
  "free_channels n nm m =
     fold (\<lambda>i m. if i < length m \<and> m ! i = nm then m[i := - 1] else m) [0..<n] m"

definition clear_sense_and_modes :: "platform \<Rightarrow> pin_state \<Rightarrow> pin_state" where
  "clear_sense_and_modes c s =
     (let s1 = set_PIN_CNF (get_PIN_CNF s AND NOT GPIO_PIN_CNF_SENSE_Msk) s
      in s1\<lparr>status := status s1 AND IO_STATUS_MODES c\<rparr>)"

definition release_owner :: "platform \<Rightarrow> peripheral \<Rightarrow> pin_state \<Rightarrow> pin_state" where
  "release_owner c p s =
     (let s1 = s\<lparr>status := status s OR IO_STATUS_DISCONNECTING c\<rparr>;
          s2 = releasePin c p (s1\<lparr>ownerCalls := ownerCalls s1 @ [ReleasePin p]\<rparr>);
          s3 = (if obj s2 = pwm s2
                then s2\<lparr>pwmChannelMap :=
                       free_channels (NRF52PWM_PWM_CHANNELS c) (int (name s2)) (pwmChannelMap s2)\<rparr>
                else s2)
      in s3\<lparr>obj := None\<rparr>)"

definition disconnect :: "platform \<Rightarrow> pin_state \<Rightarrow> pin_state" where
  "disconnect c s =
     (if isDisconnecting c s then s
      else clear_sense_and_modes c
             (case obj s of
                None \<Rightarrow> s
              | Some p \<Rightarrow> if pinLock s p then s else release_owner c p s))"

definition connect :: "platform \<Rightarrow> peripheral \<Rightarrow> bool \<Rightarrow> pin_state \<Rightarrow> pin_state" where
  "connect c p del s =
     (if obj s \<noteq> Some p
      then (Pin_connect p del (if obj s \<noteq> None then disconnect c s else s))\<lparr>obj := Some p\<rparr>
      else s)"

section \<open>Digital output\<close>

definition write_level :: "int \<Rightarrow> pin_state \<Rightarrow> pin_state" where
  "write_level v s = (if v \<noteq> 0 then write_OUTSET (pin_mask s) s else write_OUTCLR (pin_mask s) s)"

text \<open>The test \<^verbatim>\<open>!obj || obj->isPinLocked()\<close> of the fast paths.\<close>

definition owner_permits :: "pin_state \<Rightarrow> bool" where
  "owner_permits s \<longleftrightarrow> (case obj s of None \<Rightarrow> True | Some p \<Rightarrow> pinLock s p)"

text \<open>The pin has an owner, and that owner reports \<^verbatim>\<open>isPinLocked()\<close>.\<close>

definition owner_locked :: "pin_state \<Rightarrow> bool" where
  "owner_locked s \<longleftrightarrow> (case obj s of None \<Rightarrow> False | Some p \<Rightarrow> pinLock s p)"

definition setDigitalValue :: "platform \<Rightarrow> int \<Rightarrow> pin_state \<Rightarrow> device_result \<times> pin_state" where
  "setDigitalValue c v s =
     (if status s AND IO_STATUS_DIGITAL_OUT c \<noteq> 0 \<and> owner_permits s
      then (DEVICE_OK, write_level v s)
      else
        let s1 = disconnect c s;
            s2 = write_level v s1;
            s3 = set_PIN_CNF (get_PIN_CNF s2 OR 1) s2
        in (DEVICE_OK, s3\<lparr>status := status s3 OR IO_STATUS_DIGITAL_OUT c\<rparr>))"

definition get_and_set :: "u32 \<Rightarrow> pin_state \<Rightarrow> pin_state" where
  "get_and_set m s = write_DIRSET (NOT (IN (port s)) AND m) s"

definition get_and_clr :: "u32 \<Rightarrow> pin_state \<Rightarrow> pin_state" where
  "get_and_clr m s = write_DIRSET (IN (port s) AND m) s"

definition getAndSetDigitalValue ::
  "platform \<Rightarrow> int \<Rightarrow> pin_state \<Rightarrow> device_result \<times> pin_state" where
  "getAndSetDigitalValue c v s =
     (let m = pin_mask s in
      if DIR (port s) AND m = 0
      then
        let s1 = write_level v s;
            s2 = (if v \<noteq> 0 then get_and_set m s1 else get_and_clr m s1)
        in if DIR (port s2) AND m \<noteq> 0
           then (DEVICE_OK, snd (setDigitalValue c v (disconnect c s2)))
           else (DEVICE_BUSY, s2)
      else (DEVICE_OK, s))"

section \<open>The interrupt demultiplexer\<close>

text \<open>
  The handler sees one GPIO port, the table \<^verbatim>\<open>irq_pins\<close> (for each index the status of
  the registered pin, or nothing for a null entry) and the scheduler's deep-sleep
  request. What it does to the outside is recorded in \<open>dispatched\<close>: the calls of
  \<^verbatim>\<open>pin->rise()\<close> and \<^verbatim>\<open>pin->fall()\<close>, named by the index of the pin in the table, and
  the event that cancels deep sleep. The calls themselves run no code of the model:
  a handler that reconfigures pins from inside the interrupt is not covered.
\<close>

datatype irq_action = Rise nat | Fall nat | CancelDeepSleep

record irq_state =
  GPIO_PORT :: gpio_port
  irq_pins :: "nat \<Rightarrow> u32 option"
  deepsleep_pending :: bool
  dispatched :: "irq_action list"

text \<open>
  The instruction \<^verbatim>\<open>clz\<close>: the number of zero bits above the most significant set
  bit of a 32-bit value, counted from bit 31 downwards (32 for the value 0).
\<close>

fun clz_from :: "nat \<Rightarrow> u32 \<Rightarrow> nat" where
  "clz_from 0 w = 0"
| "clz_from (Suc n) w = (if bit w n then 0 else Suc (clz_from n w))"

definition clz :: "u32 \<Rightarrow> nat" where
  "clz w = clz_from 32 w"

definition edge_flags :: "platform \<Rightarrow> u32" where
  "edge_flags c = IO_STATUS_EVENT_ON_EDGE c OR IO_STATUS_EVENT_PULSE_ON_EDGE c
     OR IO_STATUS_INTERRUPT_ON_EDGE c"

text \<open>
  Modelled from the spec: \<^verbatim>\<open>Pin::isWakeOnActive\<close> of the base class is missing; the
  spec says that the pin "declares wake-on-active", the preference that the status
  keeps as \<^verbatim>\<open>IO_STATUS_WAKE_ON_ACTIVE\<close>.
\<close>

definition isWakeOnActive :: "platform \<Rightarrow> u32 \<Rightarrow> bool" where
  "isWakeOnActive c st \<longleftrightarrow> st AND IO_STATUS_WAKE_ON_ACTIVE c \<noteq> 0"

text \<open>Flip the sense bit of the pin, then call rise or fall by the new polarity.\<close>

definition edge_dispatch :: "nat \<Rightarrow> nat \<Rightarrow> irq_state \<Rightarrow> irq_state" where
  "edge_dispatch pinNumber idx s =
     (let cnf = PIN_CNF (GPIO_PORT s) pinNumber XOR 0x00010000;
          s1 = s\<lparr>GPIO_PORT := (GPIO_PORT s)\<lparr>PIN_CNF := (PIN_CNF (GPIO_PORT s))(pinNumber := cnf)\<rparr>\<rparr>
      in s1\<lparr>dispatched :=
              dispatched s1 @ [if cnf AND 0x00010000 \<noteq> 0 then Rise idx else Fall idx]\<rparr>)"

text \<open>One round of the loop, for the pin \<open>pinNumber\<close> of the port.\<close>

definition pin_changed :: "platform \<Rightarrow> nat \<Rightarrow> nat \<Rightarrow> irq_state \<Rightarrow> irq_state" where
  "pin_changed c pinNumber pinNumberOffset s =
     (case irq_pins s (pinNumber + pinNumberOffset) of
        None \<Rightarrow> s
      | Some st \<Rightarrow>
          let s1 = (if st AND edge_flags c \<noteq> 0
                    then edge_dispatch pinNumber (pinNumber + pinNumberOffset) s
                    else s)
          in if isWakeOnActive c st \<and> deepsleep_pending s1
             then s1\<lparr>dispatched := dispatched s1 @ [CancelDeepSleep]\<rparr>
             else s1)"

text \<open>
  The loop \<^verbatim>\<open>while (latch)\<close> ends because each round clears the most significant set
  bit of the snapshot.
\<close>

lemma clz_from_bit:
  "\<exists>i<n. bit w i \<Longrightarrow> clz_from n w < n \<and> bit w (n - 1 - clz_from n w)"
proof (induction n)
  case 0
  then show ?case by simp
next
  case (Suc n)
  show ?case
  proof (cases "bit w n")
    case True
    then show ?thesis by simp
  next
    case False
    with Suc.prems have "\<exists>i<n. bit w i"
      by (metis less_Suc_eq)
    from Suc.IH [OF this] False show ?thesis
      by (cases n) auto
  qed
qed

lemma clz_bit:
  assumes "w \<noteq> 0"
  shows "clz w < 32 \<and> bit w (31 - clz w)"
proof -
  from assms obtain i where "bit w i"
    by (auto simp: bit_eq_iff)
  moreover from this have "i < 32"
    using bit_imp_le_length [of w i] by simp
  ultimately have "\<exists>i<32. bit w i" by blast
  from clz_from_bit [OF this] show ?thesis
    by (simp add: clz_def)
qed

lemma clear_bit_less:
  fixes w :: u32
  assumes "bit w n"
  shows "unat (w AND NOT (push_bit n 1)) < unat w"
proof -
  have le: "w AND NOT (push_bit n 1) \<le> w"
    by (rule word_and_le2)
  have "\<not> bit (w AND NOT (push_bit n 1)) n"
    by (simp add: bit_simps)
  with assms have "w AND NOT (push_bit n 1) \<noteq> w"
    by metis
  with le have "w AND NOT (push_bit n 1) < w"
    by simp
  then show ?thesis
    by (simp add: word_less_nat_alt)
qed

function irq_loop :: "platform \<Rightarrow> nat \<Rightarrow> u32 \<Rightarrow> irq_state \<Rightarrow> irq_state" where
  "irq_loop c pinNumberOffset latch s =
     (if latch = 0 then s
      else
        let pinNumber = 31 - clz latch
        in irq_loop c pinNumberOffset (latch AND NOT (push_bit pinNumber 1))
             (pin_changed c pinNumber pinNumberOffset s))"
  by pat_completeness auto
termination
proof (relation "measure (\<lambda>(c, pinNumberOffset, latch, s). unat latch)")
  show "wf (measure (\<lambda>(c, pinNumberOffset, latch, s). unat latch))"
    by simp
next
  fix c :: platform and pinNumberOffset :: nat and latch :: u32 and s :: irq_state
    and pinNumber :: nat
  assume "latch \<noteq> 0" and "pinNumber = 31 - clz latch"
  then show "((c, pinNumberOffset, latch AND NOT (push_bit pinNumber 1),
               pin_changed c pinNumber pinNumberOffset s),
              (c, pinNumberOffset, latch, s))
             \<in> measure (\<lambda>(c, pinNumberOffset, latch, s). unat latch)"
    using clz_bit [of latch] clear_bit_less [of latch pinNumber] by simp
qed

declare irq_loop.simps [simp del]

text \<open>
  The handler of one port. \<^verbatim>\<open>LATCH\<close> is a write-one-to-clear register: the closing
  write of \<^verbatim>\<open>0xffffffff\<close> clears the bits written as 1.
\<close>

definition process_gpio_irq :: "platform \<Rightarrow> nat \<Rightarrow> irq_state \<Rightarrow> irq_state" where
  "process_gpio_irq c pinNumberOffset s =
     (let s1 = irq_loop c pinNumberOffset (LATCH (GPIO_PORT s)) s
      in s1\<lparr>GPIO_PORT := (GPIO_PORT s1)\<lparr>LATCH := LATCH (GPIO_PORT s1) AND NOT 0xffffffff\<rparr>\<rparr>)"

text \<open>
  What one changed pin with edge events contributes to the record: a rise if its
  sense bit was clear before the flip and a fall otherwise, then the cancellation of
  deep sleep if the pin wakes on activity and a deep sleep is pending.
\<close>

definition edge_of :: "irq_state \<Rightarrow> nat \<Rightarrow> nat \<Rightarrow> irq_action" where
  "edge_of s pinNumber pinNumberOffset =
     (if PIN_CNF (GPIO_PORT s) pinNumber AND 0x00010000 = 0
      then Rise (pinNumber + pinNumberOffset) else Fall (pinNumber + pinNumberOffset))"

definition wake_of :: "platform \<Rightarrow> irq_state \<Rightarrow> u32 \<Rightarrow> irq_action list" where
  "wake_of c s st =
     (if isWakeOnActive c st \<and> deepsleep_pending s then [CancelDeepSleep] else [])"

section \<open>Single-precision arithmetic\<close>

text \<open>
  The analog operations compute in \<^verbatim>\<open>float\<close>. A float is modelled by the rational
  number it denotes, and every conversion to float and every float operation by the
  exact result rounded to the nearest number with a significand of 24 bits, ties to
  the even significand: the arithmetic of IEEE 754 binary32 in its default rounding
  mode. The range of the exponent is not modelled (no overflow, no subnormal numbers);
  the values that occur below are integers of at most 32 bits and their products and
  quotients, far inside that range.
\<close>

text \<open>
  Rounding to the nearest integer, ties to even.
\<close>

definition round_even :: "rat \<Rightarrow> int" where
  "round_even y =
     (let f = \<lfloor>y\<rfloor>; r = y - of_int f
      in if r < 1 / 2 then f else if 1 / 2 < r then f + 1 else if even f then f else f + 1)"

text \<open>
  The binary exponent of a nonzero number: the floor of the logarithm to base 2 of its
  absolute value.
\<close>

definition f32_exponent :: "rat \<Rightarrow> int" where
  "f32_exponent x =
     (let a = \<bar>x\<bar>
      in if 1 \<le> a then int (floorlog 2 (nat \<lfloor>a\<rfloor>)) - 1
         else - int (floorlog 2 (nat (\<lceil>1 / a\<rceil> - 1))))"

definition f32 :: "rat \<Rightarrow> rat" where
  "f32 x =
     (if x = 0 then 0
      else let u = 2 powi (f32_exponent x - 23) in of_int (round_even (x / u)) * u)"

text \<open>
  The conversions \<^verbatim>\<open>(int)\<close> and \<^verbatim>\<open>(uint16_t)\<close> of a float truncate towards zero. C leaves
  the conversion undefined when the truncated value does not fit the target type: the
  conversion to \<^verbatim>\<open>uint16_t\<close> answers \<open>None\<close> there; the conversion to \<^verbatim>\<open>int\<close> is only
  applied to values far below \<open>2 ^ 31\<close>.
\<close>

definition f32_to_int :: "rat \<Rightarrow> int" where
  "f32_to_int x = (if 0 \<le> x then \<lfloor>x\<rfloor> else \<lceil>x\<rceil>)"

definition f32_to_u16 :: "rat \<Rightarrow> u16 option" where
  "f32_to_u16 x =
     (let t = f32_to_int x in if 0 \<le> t \<and> t < 65536 then Some (word_of_int t) else None)"

text \<open>
  The division of \<^verbatim>\<open>int\<close> in C, which truncates towards zero (its divisors below are
  positive constants).
\<close>

definition cdiv :: "int \<Rightarrow> int \<Rightarrow> int" where
  "cdiv a b = sgn a * sgn b * (\<bar>a\<bar> div \<bar>b\<bar>)"

section \<open>Analog output: the PWM channel pool\<close>

text \<open>
  The static arrays \<^verbatim>\<open>pwmBuffer\<close> and \<^verbatim>\<open>pwmChannelMap\<close> are initialised with four entries
  each: that is \<^verbatim>\<open>NRF52PIN_PWM_CHANNEL_MAP_SIZE\<close>.
\<close>

definition NRF52PIN_PWM_CHANNEL_MAP_SIZE :: nat where
  "NRF52PIN_PWM_CHANNEL_MAP_SIZE = 4"

text \<open>
  Modelled from the spec: \<^verbatim>\<open>MemorySource::playAsync\<close> is missing; the spec calls it the
  asynchronous play-buffer primitive that transmits the full duty-cycle buffer. The
  model records the buffer that is handed over, all of its entries.
\<close>

definition playAsync :: "pin_state \<Rightarrow> pin_state" where
  "playAsync s = s\<lparr>played := played s @ [pwmBuffer s]\<rparr>"

text \<open>
  The driver is created once: \<open>new_NRF52PWM\<close> stands for the constructor (at 50 Hz)
  and \<^verbatim>\<open>setStreamingMode(false)\<close>, and yields the state in which \<open>pwm\<close> is the new driver.
\<close>

definition initialisePWM :: "platform \<Rightarrow> pin_state \<Rightarrow> pin_state" where
  "initialisePWM c s =
     (let s1 = (if \<not> pwmSource s then s\<lparr>pwmSource := True\<rparr> else s)
      in if pwm s1 = None then new_NRF52PWM c s1 else s1)"

text \<open>
  The search for a channel that is already mapped to the pin: the last index whose
  entry is the pin's name, or \<^verbatim>\<open>-1\<close>.
\<close>

definition find_channel :: "int \<Rightarrow> int list \<Rightarrow> int" where
  "find_channel nm m =
     fold (\<lambda>i channel. if i < length m \<and> m ! i = nm then int i else channel)
       [0..<NRF52PIN_PWM_CHANNEL_MAP_SIZE] (- 1)"

text \<open>
  A new channel, by round robin from the channel used last.
\<close>

definition allocate_channel :: "platform \<Rightarrow> pin_state \<Rightarrow> nat \<times> pin_state" where
  "allocate_channel c s =
     (let s1 = initialisePWM c s;
          channel = (lastUsedChannel s1 + 1) mod NRF52PIN_PWM_CHANNEL_MAP_SIZE;
          s2 = s1\<lparr>pwmChannelMap := (pwmChannelMap s1)[channel := int (name s1)],
                  lastUsedChannel := channel\<rparr>
      in (channel, pwm_connectPin c channel s2))"

text \<open>
  The part of \<^verbatim>\<open>setAnalogValue\<close> between the validation and the new duty value: leave
  the previous mode, find or allocate the channel, and record analog-output mode
  unless a pin-locked peripheral owns the pin. It does not depend on the level.
\<close>

definition prepare_channel :: "platform \<Rightarrow> pin_state \<Rightarrow> nat \<times> pin_state" where
  "prepare_channel c s =
     (let s1 = (if status s AND IO_STATUS_ANALOG_OUT c = 0 then disconnect c s else s);
          found = find_channel (int (name s1)) (pwmChannelMap s1);
          (channel, s2) = (if found = - 1 then allocate_channel c s1 else (nat found, s1))
      in (channel,
          if \<not> owner_locked s2 then s2\<lparr>status := status s2 OR IO_STATUS_ANALOG_OUT c\<rparr>
          else s2))"

text \<open>
  The duty value for a level, as the source computes it:
  \<^verbatim>\<open>(int)((float)range * (1 - (float)value / (float)(DEVICE_PIN_MAX_OUTPUT+1)))\<close>, then
  stored into a \<^verbatim>\<open>uint16_t\<close>.
\<close>

definition duty :: "platform \<Rightarrow> int \<Rightarrow> int \<Rightarrow> u16" where
  "duty c range' v =
     word_of_int (f32_to_int
       (f32 (f32 (of_int range') *
             f32 (1 - f32 (f32 (of_int v) / f32 (of_int (DEVICE_PIN_MAX_OUTPUT c + 1)))))))"

definition setAnalogValue :: "platform \<Rightarrow> int \<Rightarrow> pin_state \<Rightarrow> device_result \<times> pin_state" where
  "setAnalogValue c v s =
     (if capability s AND PIN_CAPABILITY_ANALOG c = 0 then (DEVICE_NOT_SUPPORTED, s)
      else if v < 0 \<or> DEVICE_PIN_MAX_OUTPUT c < v then (DEVICE_INVALID_PARAMETER, s)
      else
        let (channel, s1) = prepare_channel c s;
            s2 = s1\<lparr>pwmBuffer := (pwmBuffer s1)[channel := duty c (sampleRange s1) v]\<rparr>
        in (DEVICE_OK, playAsync s2))"

text \<open>
  \<^verbatim>\<open>setServoPulseUs\<close> turns a pulse width into the level
  \<^verbatim>\<open>(int)(1024.0f * (float)pulseWidth / 20000.0f)\<close> at a period of 20000 microseconds.
\<close>

definition servo_level :: "nat \<Rightarrow> int" where
  "servo_level pulseWidth = f32_to_int (f32 (f32 (1024 * f32 (of_nat pulseWidth)) / 20000))"

definition setServoPulseUs :: "platform \<Rightarrow> nat \<Rightarrow> pin_state \<Rightarrow> device_result \<times> pin_state" where
  "setServoPulseUs c pulseWidth s =
     (let s1 = initialisePWM c s;
          s2 = (if periodUs s1 \<noteq> 20000 then pwm_setPeriodUs c 20000 s1 else s1)
      in setAnalogValue c (servo_level pulseWidth) s2)"

text \<open>
  The pulse width that \<^verbatim>\<open>setServoValue\<close> passes on, computed in \<^verbatim>\<open>int\<close> (taken without
  overflow here) and converted to \<^verbatim>\<open>uint32_t\<close> at the call.
\<close>

definition servo_pulse :: "platform \<Rightarrow> int \<Rightarrow> int \<Rightarrow> int \<Rightarrow> int" where
  "servo_pulse c v range' center =
     (let value = (if DEVICE_PIN_MAX_SERVO_RANGE c < v then DEVICE_PIN_MAX_SERVO_RANGE c else v);
          lower = (center - cdiv range' 2) * 1000;
          value = value * 1000;
          scaled = lower + range' * cdiv value (DEVICE_PIN_MAX_SERVO_RANGE c)
      in cdiv scaled 1000)"

definition setServoValue ::
  "platform \<Rightarrow> int \<Rightarrow> int \<Rightarrow> int \<Rightarrow> pin_state \<Rightarrow> device_result \<times> pin_state" where
  "setServoValue c v range' center s =
     (if capability s AND PIN_CAPABILITY_ANALOG c = 0 then (DEVICE_NOT_SUPPORTED, s)
      else if v < 0 \<or> range' < 1 \<or> center < 1 then (DEVICE_INVALID_PARAMETER, s)
      else setServoPulseUs c (nat (servo_pulse c v range' center mod 2 ^ 32)) s)"

text \<open>
  One entry of the buffer under a change of period: \<^verbatim>\<open>v = (float)pwmBuffer[i]\<close>,
  \<^verbatim>\<open>v = v * (float)newRange\<close>, \<^verbatim>\<open>v = v / (float)oldRange\<close>, \<^verbatim>\<open>(uint16_t)v\<close>. A zero
  \<^verbatim>\<open>oldRange\<close> makes the quotient an infinity or not a number, whose conversion is
  undefined.
\<close>

definition rescale :: "int \<Rightarrow> int \<Rightarrow> u16 \<Rightarrow> u16 option" where
  "rescale oldRange newRange d =
     (if oldRange = 0 then None
      else f32_to_u16
             (f32 (f32 (f32 (of_int (uint d)) * f32 (of_int newRange)) / f32 (of_int oldRange))))"

definition setAnalogPeriodUs ::
  "platform \<Rightarrow> nat \<Rightarrow> pin_state \<Rightarrow> (device_result \<times> pin_state) option" where
  "setAnalogPeriodUs c period s =
     (if status s AND IO_STATUS_ANALOG_OUT c \<noteq> 0
      then
        let oldRange = sampleRange s;
            s1 = pwm_setPeriodUs c period s
        in (case those (map (rescale oldRange (sampleRange s1)) (pwmBuffer s1)) of
              None \<Rightarrow> None
            | Some buf \<Rightarrow> Some (DEVICE_OK, playAsync (s1\<lparr>pwmBuffer := buf\<rparr>)))
      else Some (DEVICE_NOT_SUPPORTED, s))"

section \<open>Sequences of ownership operations, and sample states\<close>

datatype pin_op = Connect peripheral bool | Disconnect

fun apply_op :: "platform \<Rightarrow> pin_op \<Rightarrow> pin_state \<Rightarrow> pin_state" where
  "apply_op c (Connect p del) s = connect c p del s"
| "apply_op c Disconnect s = disconnect c s"

definition run_ops :: "platform \<Rightarrow> pin_op list \<Rightarrow> pin_state \<Rightarrow> pin_state" where
  "run_ops c ops s = fold (apply_op c) ops s"

text \<open>The peripherals that the pin's owner reference designates.\<close>

definition owners :: "pin_state \<Rightarrow> peripheral set" where
  "owners s = set_option (obj s)"

text \<open>
  The peripherals that hold the pin according to the calls made so far: a peripheral
  holds the pin from the call of \<^verbatim>\<open>Pin::connect\<close> that hands it over until the pin
  calls its \<^verbatim>\<open>releasePin\<close>.
\<close>

fun hold :: "owner_call \<Rightarrow> peripheral set \<Rightarrow> peripheral set" where
  "hold (PinConnect p) H = insert p H"
| "hold (ReleasePin p) H = H - {p}"

definition holders :: "owner_call list \<Rightarrow> peripheral set" where
  "holders cs = fold hold cs {}"

text \<open>
  The ownership protocol in the words of the specification, on the owner reference and
  the list of calls alone: \<^verbatim>\<open>connect(p)\<close> does nothing if \<open>p\<close> is the owner already, and
  otherwise releases the current owner, if there is one, before it records \<open>p\<close>;
  \<^verbatim>\<open>disconnect\<close> releases the current owner, if there is one, and clears the reference.
\<close>

definition release_of :: "peripheral option \<Rightarrow> owner_call list" where
  "release_of ow = (case ow of None \<Rightarrow> [] | Some q \<Rightarrow> [ReleasePin q])"

fun spec_op ::
  "pin_op \<Rightarrow> peripheral option \<times> owner_call list \<Rightarrow> peripheral option \<times> owner_call list" where
  "spec_op (Connect p del) (ow, cs) =
     (if ow = Some p then (ow, cs) else (Some p, cs @ release_of ow @ [PinConnect p]))"
| "spec_op Disconnect (ow, cs) = (None, cs @ release_of ow)"

definition spec_run ::
  "pin_op list \<Rightarrow> peripheral option \<times> owner_call list
     \<Rightarrow> peripheral option \<times> owner_call list" where
  "spec_run ops st = fold spec_op ops st"

text \<open>
  A release callback keeps to the protocol if it makes no ownership call of its own,
  that is, it does not re-enter \<^verbatim>\<open>connect\<close> or \<^verbatim>\<open>disconnect\<close> of the pin, and changes
  no peripheral's lock. A pin is at rest if it is not in the middle of a disconnect
  and no peripheral is pin-locked.
\<close>

definition release_keeps_protocol :: "platform \<Rightarrow> bool" where
  "release_keeps_protocol c \<longleftrightarrow>
     (\<forall>p t. ownerCalls (releasePin c p t) = ownerCalls t \<and>
            pinLock (releasePin c p t) = pinLock t)"

definition protocol_state :: "platform \<Rightarrow> pin_state \<Rightarrow> bool" where
  "protocol_state c s \<longleftrightarrow> \<not> isDisconnecting c s \<and> (\<forall>q. \<not> pinLock s q)"

text \<open>
  A platform with distinct single-bit status flags, \<^verbatim>\<open>IO_STATUS_MODES\<close> keeping the
  touch, polarity and wake preferences, output levels up to 1023, servo angles up to
  180, peripherals whose release callback leaves the pin alone, and a PWM driver, the
  peripheral 1, that counts one sample per microsecond, starts with a period of 20000
  and becomes the owner of a pin that it is connected to; and a pin 3 that senses
  edges as a digital input and is owned by the pin-locked peripheral 7.
\<close>

definition example_platform :: platform where
  "example_platform =
     \<lparr>IO_STATUS_DIGITAL_IN = 0x0001, IO_STATUS_DIGITAL_OUT = 0x0002,
      IO_STATUS_ANALOG_OUT = 0x0008, IO_STATUS_EVENT_ON_EDGE = 0x0020,
      IO_STATUS_EVENT_PULSE_ON_EDGE = 0x0040, IO_STATUS_INTERRUPT_ON_EDGE = 0x0080,
      IO_STATUS_WAKE_ON_ACTIVE = 0x0200, IO_STATUS_DISCONNECTING = 0x0400,
      IO_STATUS_MODES = 0x0B00, PIN_CAPABILITY_ANALOG = 0x02,
      NRF52PWM_PWM_CHANNELS = 4, DEVICE_PIN_MAX_OUTPUT = 1023,
      DEVICE_PIN_MAX_SERVO_RANGE = 180, releasePin = (\<lambda>p s. s),
      new_NRF52PWM = (\<lambda>s. s\<lparr>pwm := Some 1, sampleRange := 20000, periodUs := 20000\<rparr>),
      pwm_connectPin =
        (\<lambda>ch s. s\<lparr>obj := pwm s, ownerCalls := ownerCalls s @ [PinConnect 1]\<rparr>),
      pwm_setPeriodUs = (\<lambda>us s. s\<lparr>sampleRange := int us, periodUs := us\<rparr>)\<rparr>"

definition example_port :: gpio_port where
  "example_port = \<lparr>PIN_CNF = (\<lambda>i. 0x00020000), OUT = 0, DIR = 0, IN = 0, LATCH = 0\<rparr>"

definition example_pin :: pin_state where
  "example_pin =
     \<lparr>name = 3, capability = 0x03, status = 0x0021, obj = Some 7, deleteOnRelease = False,
      pinLock = (\<lambda>p. p = 7), port = example_port, pwmSource = False, pwm = None,
      pwmBuffer = [0, 0, 0, 0], pwmChannelMap = [- 1, - 1, - 1, - 1], lastUsedChannel = 3,
      sampleRange = 0, periodUs = 0, played = [], ownerCalls = [PinConnect 7]\<rparr>"

text \<open>The same pin with an owner that is not pin-locked.\<close>

definition unlocked_pin :: pin_state where
  "unlocked_pin = example_pin\<lparr>pinLock := (\<lambda>p. False)\<rparr>"

text \<open>An unowned pin 3 in no mode, and the same pin with its direction bit set.\<close>

definition fresh_pin :: pin_state where
  "fresh_pin = example_pin\<lparr>status := 0, obj := None, ownerCalls := []\<rparr>"

definition output_pin :: pin_state where
  "output_pin = fresh_pin\<lparr>port := example_port\<lparr>DIR := 0x00000008\<rparr>\<rparr>"

text \<open>
  Port 0 with the latch bits 3, 7 and 20 set and the pins 3, 7 and 20 registered for
  edge events; every pin senses a high level next.
\<close>

definition example_irq :: irq_state where
  "example_irq =
     \<lparr>GPIO_PORT = example_port\<lparr>LATCH := 0x00100088\<rparr>,
      irq_pins = (\<lambda>i. if i = 3 \<or> i = 7 \<or> i = 20 then Some 0x0021 else None),
      deepsleep_pending = False, dispatched = []\<rparr>"


text \<open>
  Pin 3 after \<^verbatim>\<open>setAnalogValue(0)\<close>, \<^verbatim>\<open>setAnalogPeriodUs(32767)\<close>, \<^verbatim>\<open>setDigitalValue(0)\<close>,
  \<^verbatim>\<open>setServoPulseUs(1500)\<close>, \<^verbatim>\<open>setAnalogPeriodUs(32767)\<close> and \<^verbatim>\<open>setServoPulseUs(1500)\<close>,
  called in this order on the fresh pin. The digital write frees channel 0 and leaves
  its buffer entry behind; \<^verbatim>\<open>setServoPulseUs\<close> takes channel 1 and puts the period
  back to 20000 with \<^verbatim>\<open>pwm->setPeriodUs(20000)\<close>, which rescales nothing. So the entry
  of channel 0, 20000 at first, becomes 32767, stays 32767 at the range 20000, becomes
  53683 and stays 53683 at the range 20000.
\<close>

definition stale_pin :: pin_state where
  "stale_pin =
     \<lparr>name = 3, capability = 0x03, status = 0x0008, obj = Some 1, deleteOnRelease = False,
      pinLock = (\<lambda>p. p = 7), port = example_port\<lparr>PIN_CNF := (\<lambda>i. 0x00020000)(3 := 1)\<rparr>,
      pwmSource = True, pwm = Some 1,
      pwmBuffer = [53683, 18515, 0, 0], pwmChannelMap = [- 1, 3, - 1, - 1], lastUsedChannel = 1,
      sampleRange = 20000, periodUs = 20000,
      played = [[20000, 0, 0, 0], [32767, 0, 0, 0], [32767, 18515, 0, 0],
                [53683, 30334, 0, 0], [53683, 18515, 0, 0]],
      ownerCalls = [PinConnect 1, ReleasePin 1, PinConnect 1]\<rparr>"

section \<open>Properties of the ownership protocol\<close>

lemma PIN_lt: "PIN s < 32"
  by (simp add: PIN_def)

lemma obj_clear_sense_and_modes [simp]: "obj (clear_sense_and_modes c s) = obj s"
  by (simp add: clear_sense_and_modes_def set_PIN_CNF_def Let_def)

lemma pinLock_clear_sense_and_modes [simp]:
  "pinLock (clear_sense_and_modes c s) = pinLock s"
  by (simp add: clear_sense_and_modes_def set_PIN_CNF_def Let_def)

lemma clear_sense_and_modes_idem:
  "clear_sense_and_modes c (clear_sense_and_modes c s) = clear_sense_and_modes c s"
  by (simp add: clear_sense_and_modes_def set_PIN_CNF_def get_PIN_CNF_def PIN_def Let_def
      and.assoc)

lemma obj_release_owner [simp]: "obj (release_owner c p s) = None"
  by (simp add: release_owner_def Let_def)

text \<open>
  A second \<^verbatim>\<open>disconnect\<close> finds either the re-entrancy flag, or no owner, or a locked
  owner: it releases nothing, and clearing the sense bits and masking the status twice
  is the same as once.
\<close>

lemma disconnect_twice: "disconnect c (disconnect c s) = disconnect c s"
proof (cases "isDisconnecting c s")
  case True
  then show ?thesis by (simp add: disconnect_def)
next
  case False
  define t where "t = (case obj s of None \<Rightarrow> s
              | Some p \<Rightarrow> if pinLock s p then s else release_owner c p s)"
  have d: "disconnect c s = clear_sense_and_modes c t"
    using False by (simp add: disconnect_def t_def)
  have keep: "(case obj t of None \<Rightarrow> clear_sense_and_modes c t
        | Some p \<Rightarrow> if pinLock t p then clear_sense_and_modes c t
                    else release_owner c p (clear_sense_and_modes c t)) =
        clear_sense_and_modes c t"
    by (auto simp: t_def split: option.splits)
  show ?thesis
    unfolding d
    apply (subst disconnect_def)
    using keep
    apply (auto simp: clear_sense_and_modes_idem split: option.splits)
    done
qed

lemma obj_disconnect:
  "obj (disconnect c s) = (if isDisconnecting c s \<or> owner_locked s then obj s else None)"
  by (auto simp: disconnect_def owner_locked_def split: option.splits)

lemma holders_snoc [simp]: "holders (cs @ [e]) = hold e (holders cs)"
  by (simp add: holders_def)

lemma ownerCalls_clear_sense_and_modes [simp]:
  "ownerCalls (clear_sense_and_modes c s) = ownerCalls s"
  by (simp add: clear_sense_and_modes_def set_PIN_CNF_def Let_def)

lemma status_clear_sense_and_modes [simp]:
  "status (clear_sense_and_modes c s) = status s AND IO_STATUS_MODES c"
  by (simp add: clear_sense_and_modes_def set_PIN_CNF_def Let_def)

text \<open>
  \<^verbatim>\<open>disconnect\<close> ends by masking the status with \<^verbatim>\<open>IO_STATUS_MODES\<close>; the re-entrancy
  flag does not survive it if it is not one of these bits.
\<close>

lemma disconnect_idle:
  assumes "IO_STATUS_MODES c AND IO_STATUS_DISCONNECTING c = 0" and "\<not> isDisconnecting c s"
  shows "\<not> isDisconnecting c (disconnect c s)"
proof -
  have "(w AND IO_STATUS_MODES c) AND IO_STATUS_DISCONNECTING c = 0" for w
    using assms(1) by (simp add: and.assoc)
  then show ?thesis
    using assms(2) by (simp add: disconnect_def isDisconnecting_def)
qed

lemma release_owner_calls:
  assumes "release_keeps_protocol c"
  shows "ownerCalls (release_owner c p s) = ownerCalls s @ [ReleasePin p]"
    and "pinLock (release_owner c p s) = pinLock s"
  using assms by (simp_all add: release_keeps_protocol_def release_owner_def Let_def)

lemma disconnect_released:
  assumes "release_keeps_protocol c" and "\<not> isDisconnecting c s" and "\<not> owner_locked s"
  shows "obj (disconnect c s) = None"
    and "ownerCalls (disconnect c s) = ownerCalls s @ release_of (obj s)"
  using assms(2,3) release_owner_calls(1) [OF assms(1)]
  by (auto simp: disconnect_def release_of_def owner_locked_def split: option.splits)

lemma disconnect_unlocked:
  assumes "release_keeps_protocol c" and "\<not> isDisconnecting c s" and "\<forall>q. \<not> pinLock s q"
  shows "obj (disconnect c s) = None"
    and "ownerCalls (disconnect c s) = ownerCalls s @ release_of (obj s)"
    and "pinLock (disconnect c s) = pinLock s"
  using assms
  by (auto simp: disconnect_def release_of_def release_owner_calls split: option.splits)

text \<open>
  One operation on a pin at rest does what the specification says to the owner
  reference and to the list of calls, and leaves the pin at rest.
\<close>

lemma apply_op_unlocked:
  assumes cb: "release_keeps_protocol c"
    and modes: "IO_STATUS_MODES c AND IO_STATUS_DISCONNECTING c = 0"
    and st: "protocol_state c s"
  shows "protocol_state c (apply_op c op s) \<and>
     (obj (apply_op c op s), ownerCalls (apply_op c op s)) = spec_op op (obj s, ownerCalls s)"
proof (cases op)
  case Disconnect
  then show ?thesis
    using disconnect_unlocked [OF cb, of s] disconnect_idle [OF modes, of s] st
    by (simp add: protocol_state_def)
next
  case (Connect p del)
  show ?thesis
  proof (cases "obj s = Some p")
    case True
    then show ?thesis using Connect st by (simp add: connect_def)
  next
    case False
    show ?thesis
    proof (cases "obj s")
      case None
      then show ?thesis
        using Connect st
        by (simp add: connect_def Pin_connect_def protocol_state_def isDisconnecting_def
            release_of_def)
    next
      case (Some q)
      then show ?thesis
        using Connect False st disconnect_unlocked [OF cb, of s] disconnect_idle [OF modes, of s]
        by (simp add: connect_def Pin_connect_def protocol_state_def isDisconnecting_def
            release_of_def)
    qed
  qed
qed

lemma run_ops_unlocked:
  assumes cb: "release_keeps_protocol c"
    and modes: "IO_STATUS_MODES c AND IO_STATUS_DISCONNECTING c = 0"
  shows "protocol_state c s \<Longrightarrow>
     protocol_state c (run_ops c ops s) \<and>
     (obj (run_ops c ops s), ownerCalls (run_ops c ops s)) = spec_run ops (obj s, ownerCalls s)"
proof (induction ops arbitrary: s)
  case Nil
  then show ?case by (simp add: run_ops_def spec_run_def)
next
  case (Cons op ops)
  note step = apply_op_unlocked [OF cb modes Cons.prems, of op]
  from Cons.IH [of "apply_op c op s"] step
  show ?case by (simp add: run_ops_def spec_run_def)
qed

text \<open>
  In the specification's protocol the peripherals that hold the pin are always those
  that the owner reference designates.
\<close>

lemma spec_op_holders:
  assumes "holders cs = set_option ow" and "spec_op op (ow, cs) = (ow', cs')"
  shows "holders cs' = set_option ow'"
  using assms
  by (cases op; cases ow) (auto simp: release_of_def holders_def split: if_splits)

lemma spec_run_holders:
  "holders cs = set_option ow \<Longrightarrow> spec_run ops (ow, cs) = (ow', cs') \<Longrightarrow>
   holders cs' = set_option ow'"
proof (induction ops arbitrary: ow cs)
  case Nil
  then show ?case by (simp add: spec_run_def)
next
  case (Cons op ops)
  obtain ow1 cs1 where s1: "spec_op op (ow, cs) = (ow1, cs1)"
    by (cases "spec_op op (ow, cs)")
  from spec_op_holders [OF Cons.prems(1) s1] Cons.IH [of cs1 ow1] Cons.prems(2) s1
  show ?case by (simp add: spec_run_def)
qed

text \<open>
  Claim C1, as stated: \<^verbatim>\<open>connect(p)\<close> first disconnects any current owner before it
  records \<open>p\<close>, and \<^verbatim>\<open>disconnect\<close> clears the owner reference, so that at most one
  peripheral owns the pin. Not with a pin-locked owner: pin 3 is held by the locked
  peripheral 7, \<^verbatim>\<open>disconnect\<close> leaves the reference on 7, and \<^verbatim>\<open>connect(9)\<close> records 9
  without any call of 7's \<^verbatim>\<open>releasePin\<close>, so that 7 and 9 both hold the pin.
\<close>

theorem connect_over_locked_owner_counterexample:
  "obj example_pin = Some 7 \<and> pinLock example_pin 7 \<and>
   \<not> isDisconnecting example_platform example_pin \<and>
   ownerCalls example_pin = [PinConnect 7] \<and>
   obj (disconnect example_platform example_pin) = Some 7 \<and>
   obj (connect example_platform 9 True example_pin) = Some 9 \<and>
   ownerCalls (connect example_platform 9 True example_pin) = [PinConnect 7, PinConnect 9] \<and>
   holders (ownerCalls (connect example_platform 9 True example_pin)) = {7, 9}"
  by (auto simp add: example_pin_def example_platform_def example_port_def disconnect_def
      connect_def Pin_connect_def isDisconnecting_def clear_sense_and_modes_def set_PIN_CNF_def
      get_PIN_CNF_def PIN_def GPIO_PIN_CNF_SENSE_Msk_def Let_def holders_def)

text \<open>
  Claim C1, amended. Take a pin that is not in the middle of a disconnect, on which no
  peripheral is pin-locked and whose holders are those that its owner reference
  designates, release callbacks that keep to the protocol, and the re-entrancy flag
  outside \<^verbatim>\<open>IO_STATUS_MODES\<close>. Then across any sequence of connect and disconnect
  calls, at every observation point (after every prefix of the sequence), the owner
  reference and the calls made are those of the specification's protocol:
  \<^verbatim>\<open>connect(p)\<close> releases the current owner before it records \<open>p\<close>, and \<^verbatim>\<open>disconnect\<close>
  releases the owner and clears the reference; so the peripherals that hold the pin
  are those that the owner reference designates, at most one. \<^verbatim>\<open>connect(p)\<close> on a pin
  owned by \<open>p\<close> changes nothing, on any pin. A pin-locked owner, however, is not
  released: \<^verbatim>\<open>disconnect\<close> keeps the reference and calls nothing, and \<^verbatim>\<open>connect(p)\<close>
  records \<open>p\<close> over it.
\<close>

theorem single_owner_when_unlocked:
  assumes cb: "release_keeps_protocol c"
    and modes: "IO_STATUS_MODES c AND IO_STATUS_DISCONNECTING c = 0"
    and idle: "\<not> isDisconnecting c s"
    and unlocked: "\<forall>q. \<not> pinLock s q"
    and held: "holders (ownerCalls s) = owners s"
  shows "(obj (run_ops c (take n ops) s), ownerCalls (run_ops c (take n ops) s)) =
           spec_run (take n ops) (obj s, ownerCalls s) \<and>
         holders (ownerCalls (run_ops c (take n ops) s)) = owners (run_ops c (take n ops) s) \<and>
         card (holders (ownerCalls (run_ops c (take n ops) s))) \<le> 1 \<and>
         (obj t = Some p \<longrightarrow> connect c p del t = t) \<and>
         (\<not> isDisconnecting c t \<and> obj t = Some q \<and> pinLock t q \<longrightarrow>
            obj (disconnect c t) = Some q \<and> ownerCalls (disconnect c t) = ownerCalls t \<and>
            (q \<noteq> p \<longrightarrow>
               obj (connect c p del t) = Some p \<and>
               ownerCalls (connect c p del t) = ownerCalls t @ [PinConnect p]))"
proof -
  have st: "protocol_state c s"
    using idle unlocked by (simp add: protocol_state_def)
  note r = run_ops_unlocked [OF cb modes st, of "take n ops", THEN conjunct2]
  have h: "holders (ownerCalls (run_ops c (take n ops) s)) = owners (run_ops c (take n ops) s)"
    using spec_run_holders [of "ownerCalls s" "obj s" "take n ops"] held r
    by (simp add: owners_def)
  have "card (owners (run_ops c (take n ops) s)) \<le> 1"
    by (cases "obj (run_ops c (take n ops) s)") (simp_all add: owners_def)
  with h have k: "card (holders (ownerCalls (run_ops c (take n ops) s))) \<le> 1"
    by simp
  have same: "obj t = Some p \<longrightarrow> connect c p del t = t"
    by (simp add: connect_def)
  have locked: "\<not> isDisconnecting c t \<and> obj t = Some q \<and> pinLock t q \<longrightarrow>
            obj (disconnect c t) = Some q \<and> ownerCalls (disconnect c t) = ownerCalls t \<and>
            (q \<noteq> p \<longrightarrow>
               obj (connect c p del t) = Some p \<and>
               ownerCalls (connect c p del t) = ownerCalls t @ [PinConnect p])"
    by (simp add: connect_def disconnect_def Pin_connect_def)
  from r h k same locked show ?thesis
    by (intro conjI)
qed

theorem single_owner_when_unlocked_witness:
  "release_keeps_protocol example_platform \<and>
   IO_STATUS_MODES example_platform AND IO_STATUS_DISCONNECTING example_platform = 0 \<and>
   \<not> isDisconnecting example_platform unlocked_pin \<and>
   (\<forall>q. \<not> pinLock unlocked_pin q) \<and>
   holders (ownerCalls unlocked_pin) = owners unlocked_pin \<and>
   obj (run_ops example_platform (take 3 [Connect 9 True, Disconnect, Connect 7 False])
     unlocked_pin) = Some 7 \<and>
   ownerCalls (run_ops example_platform (take 3 [Connect 9 True, Disconnect, Connect 7 False])
     unlocked_pin) = [PinConnect 7, ReleasePin 7, PinConnect 9, ReleasePin 9, PinConnect 7] \<and>
   holders (ownerCalls (run_ops example_platform
     (take 3 [Connect 9 True, Disconnect, Connect 7 False]) unlocked_pin)) = {7} \<and>
   connect example_platform 7 True example_pin = example_pin \<and>
   obj (disconnect example_platform example_pin) = Some 7 \<and>
   ownerCalls (disconnect example_platform example_pin) = [PinConnect 7] \<and>
   obj (connect example_platform 9 True example_pin) = Some 9 \<and>
   ownerCalls (connect example_platform 9 True example_pin) = [PinConnect 7, PinConnect 9]"
proof -
  have h1: "release_keeps_protocol example_platform"
    by (simp add: release_keeps_protocol_def example_platform_def)
  have h2: "IO_STATUS_MODES example_platform AND IO_STATUS_DISCONNECTING example_platform = 0"
    by (simp add: example_platform_def)
  have h3: "\<not> isDisconnecting example_platform unlocked_pin"
    by (simp add: isDisconnecting_def example_platform_def unlocked_pin_def example_pin_def)
  have h4: "\<forall>q. \<not> pinLock unlocked_pin q"
    by (simp add: unlocked_pin_def)
  have h5: "holders (ownerCalls unlocked_pin) = owners unlocked_pin"
    by (simp add: unlocked_pin_def example_pin_def holders_def owners_def)
  have o: "obj unlocked_pin = Some 7" "ownerCalls unlocked_pin = [PinConnect 7]"
    by (simp_all add: unlocked_pin_def example_pin_def)
  have l: "\<not> isDisconnecting example_platform example_pin \<and> obj example_pin = Some 7 \<and>
      pinLock example_pin 7" "ownerCalls example_pin = [PinConnect 7]"
    by (simp_all add: isDisconnecting_def example_platform_def example_pin_def)
  note t7 = single_owner_when_unlocked [OF h1 h2 h3 h4 h5, of 3
      "[Connect 9 True, Disconnect, Connect 7 False]" example_pin 7 True 7]
  note t9 = single_owner_when_unlocked [OF h1 h2 h3 h4 h5, of 3
      "[Connect 9 True, Disconnect, Connect 7 False]" example_pin 9 True 7]
  have run: "obj (run_ops example_platform (take 3 [Connect 9 True, Disconnect, Connect 7 False])
       unlocked_pin) = Some 7 \<and>
     ownerCalls (run_ops example_platform (take 3 [Connect 9 True, Disconnect, Connect 7 False])
       unlocked_pin) = [PinConnect 7, ReleasePin 7, PinConnect 9, ReleasePin 9, PinConnect 7]"
    using t7 [THEN conjunct1] by (simp add: spec_run_def release_of_def o)
  have hold: "holders (ownerCalls (run_ops example_platform
     (take 3 [Connect 9 True, Disconnect, Connect 7 False]) unlocked_pin)) = {7}"
    using t7 [THEN conjunct2, THEN conjunct1] run by (simp add: owners_def)
  have same: "connect example_platform 7 True example_pin = example_pin"
    using t7 l(1) by blast
  have kept: "obj (disconnect example_platform example_pin) = Some 7 \<and>
     ownerCalls (disconnect example_platform example_pin) = [PinConnect 7]"
    using t7 l by simp
  have over: "obj (connect example_platform 9 True example_pin) = Some 9 \<and>
     ownerCalls (connect example_platform 9 True example_pin) = [PinConnect 7, PinConnect 9]"
    using t9 l by simp
  from h1 h2 h3 h4 h5 run hold same kept over show ?thesis
    by blast
qed

text \<open>
  Claim C3, as stated: with a pin-locked owner, \<^verbatim>\<open>disconnect\<close> leaves the status flags
  and the edge-sense configuration exactly as they were. It does not: the locked pin 3
  loses its digital-input and edge-event flags and its SENSE bits.
\<close>

theorem disconnect_locked_counterexample:
  "obj example_pin = Some 7 \<and> pinLock example_pin 7 \<and>
   \<not> isDisconnecting example_platform example_pin \<and>
   status (disconnect example_platform example_pin) \<noteq> status example_pin \<and>
   get_PIN_CNF (disconnect example_platform example_pin) \<noteq> get_PIN_CNF example_pin"
  by (simp add: example_pin_def example_platform_def example_port_def disconnect_def
      isDisconnecting_def clear_sense_and_modes_def set_PIN_CNF_def get_PIN_CNF_def PIN_def
      GPIO_PIN_CNF_SENSE_Msk_def Let_def)

text \<open>
  Claim C3, amended: with a pin-locked owner (and the pin not already disconnecting),
  \<^verbatim>\<open>disconnect\<close> keeps the owner, calls no release and leaves the PWM channel map
  alone; all it changes is the pin's SENSE bits, which it clears, and the status,
  which it reduces to the bits of \<^verbatim>\<open>IO_STATUS_MODES\<close>.
\<close>

theorem disconnect_locked_retains_owner:
  assumes "\<not> isDisconnecting c s" and "obj s = Some p" and "pinLock s p"
  shows "disconnect c s =
     s\<lparr>port := (port s)\<lparr>PIN_CNF := (PIN_CNF (port s))
           (PIN s := PIN_CNF (port s) (PIN s) AND NOT GPIO_PIN_CNF_SENSE_Msk)\<rparr>,
       status := status s AND IO_STATUS_MODES c\<rparr>"
  using assms
  by (simp add: disconnect_def clear_sense_and_modes_def set_PIN_CNF_def get_PIN_CNF_def Let_def)

theorem disconnect_locked_retains_owner_witness:
  "\<not> isDisconnecting example_platform example_pin \<and> obj example_pin = Some 7 \<and>
   pinLock example_pin 7 \<and>
   obj (disconnect example_platform example_pin) = Some 7 \<and>
   pwmChannelMap (disconnect example_platform example_pin) = pwmChannelMap example_pin \<and>
   status (disconnect example_platform example_pin) = 0 \<and>
   get_PIN_CNF (disconnect example_platform example_pin) = 0"
proof -
  have h1: "\<not> isDisconnecting example_platform example_pin"
    by (simp add: isDisconnecting_def example_platform_def example_pin_def)
  have h2: "obj example_pin = Some 7" and h3: "pinLock example_pin 7"
    by (simp_all add: example_pin_def)
  show ?thesis
    using h1 h2 h3 disconnect_locked_retains_owner [OF h1 h2 h3]
    by (simp add: example_pin_def example_platform_def example_port_def get_PIN_CNF_def PIN_def
        GPIO_PIN_CNF_SENSE_Msk_def)
qed

text \<open>
  Claim C9. A second \<^verbatim>\<open>disconnect\<close> right after the first changes nothing at all:
  not the owner reference, not the status, not the pin's hardware configuration.
\<close>

theorem disconnect_idempotent: "disconnect c (disconnect c s) = disconnect c s"
  by (rule disconnect_twice)

section \<open>Properties of the digital output operations\<close>

text \<open>
  Claim C2 asks for \<^verbatim>\<open>DEVICE_INVALID_PARAMETER\<close> and no change for a value outside
  \<open>{0, 1}\<close>. The function has no such check: for the value 2 on an unowned pin it
  answers \<^verbatim>\<open>DEVICE_OK\<close>, drives the line high, sets the direction bit in the pin's
  configuration and enters digital-output mode.
\<close>

theorem setDigitalValue_accepts_out_of_range:
  "fst (setDigitalValue example_platform 2 fresh_pin) = DEVICE_OK \<and>
   OUT (port fresh_pin) = 0 \<and>
   OUT (port (snd (setDigitalValue example_platform 2 fresh_pin))) = 8 \<and>
   get_PIN_CNF fresh_pin = 0x00020000 \<and>
   get_PIN_CNF (snd (setDigitalValue example_platform 2 fresh_pin)) = 1 \<and>
   status fresh_pin = 0 \<and>
   status (snd (setDigitalValue example_platform 2 fresh_pin)) = 2"
  by (simp add: fresh_pin_def example_pin_def example_platform_def example_port_def
      disconnect_def setDigitalValue_def owner_permits_def write_level_def write_OUTSET_def
      pin_mask_def isDisconnecting_def clear_sense_and_modes_def set_PIN_CNF_def
      get_PIN_CNF_def PIN_def GPIO_PIN_CNF_SENSE_Msk_def Let_def)

lemma write_level_fields [simp]:
  "status (write_level v s) = status s" "obj (write_level v s) = obj s"
  "pinLock (write_level v s) = pinLock s" "name (write_level v s) = name s"
  "DIR (port (write_level v s)) = DIR (port s)" "IN (port (write_level v s)) = IN (port s)"
  by (simp_all add: write_level_def write_OUTSET_def write_OUTCLR_def)

lemma write_DIRSET_fields [simp]:
  "status (write_DIRSET m s) = status s" "obj (write_DIRSET m s) = obj s"
  "pinLock (write_DIRSET m s) = pinLock s" "name (write_DIRSET m s) = name s"
  "DIR (port (write_DIRSET m s)) = DIR (port s) OR m"
  by (simp_all add: write_DIRSET_def)

lemma pin_mask_write [simp]:
  "pin_mask (write_level v s) = pin_mask s" "pin_mask (write_DIRSET m s) = pin_mask s"
  by (simp_all add: pin_mask_def PIN_def)

lemma isDisconnecting_write [simp]:
  "isDisconnecting c (write_level v s) = isDisconnecting c s"
  "isDisconnecting c (write_DIRSET m s) = isDisconnecting c s"
  by (simp_all add: isDisconnecting_def)

lemma owner_locked_write [simp]:
  "owner_locked (write_level v s) = owner_locked s"
  "owner_locked (write_DIRSET m s) = owner_locked s"
  by (simp_all add: owner_locked_def split: option.splits)

lemma pin_mask_nz: "pin_mask s \<noteq> 0"
  using PIN_lt [of s] by (simp add: pin_mask_def)

lemma in_and_mask:
  "IN (port s) AND pin_mask s = (if bit (IN (port s)) (PIN s) then pin_mask s else 0)"
  using PIN_lt [of s] by (auto simp: pin_mask_def bit_simps intro!: bit_word_eqI)

lemma not_in_and_mask:
  "NOT (IN (port s)) AND pin_mask s = (if bit (IN (port s)) (PIN s) then 0 else pin_mask s)"
  using PIN_lt [of s] by (auto simp: pin_mask_def bit_simps intro!: bit_word_eqI)

lemma or_mask_and_mask: "(w OR pin_mask s) AND pin_mask s \<noteq> 0"
  using pin_mask_nz [of s] by (simp add: word_bw_comms)

lemma write_DIRSET_0 [simp]: "write_DIRSET 0 s = s"
  by (simp add: write_DIRSET_def)

lemma obj_setDigitalValue_disconnect:
  "obj (snd (setDigitalValue c v (disconnect c s))) = obj (disconnect c s)"
  by (simp add: setDigitalValue_def Let_def disconnect_twice write_level_def write_OUTSET_def
      write_OUTCLR_def set_PIN_CNF_def)

lemma ownerCalls_setDigitalValue_disconnect:
  "ownerCalls (snd (setDigitalValue c v (disconnect c s))) = ownerCalls (disconnect c s)"
  by (simp add: setDigitalValue_def Let_def disconnect_twice write_level_def write_OUTSET_def
      write_OUTCLR_def set_PIN_CNF_def)

text \<open>
  On either of its paths \<^verbatim>\<open>setDigitalValue(v)\<close> leaves the pin's bit of the output
  latch at the level \<open>v\<close>.
\<close>

lemma setDigitalValue_drives:
  "bit (OUT (port (snd (setDigitalValue c v s)))) (name (snd (setDigitalValue c v s)) mod 32)
     \<longleftrightarrow> v \<noteq> 0"
  by (simp add: setDigitalValue_def Let_def write_level_def write_OUTSET_def write_OUTCLR_def
      set_PIN_CNF_def pin_mask_def PIN_def bit_simps)

lemma masked_flag:
  fixes w m d :: u32
  assumes "m AND d = 0"
  shows "(w AND m) AND d = 0" and "((w AND m) OR d) AND NOT m = d"
proof -
  have nb: "\<not> (bit m n \<and> bit d n)" for n
  proof
    assume "bit m n \<and> bit d n"
    then have "bit (m AND d) n" by (simp add: bit_simps)
    with assms show False by simp
  qed
  show "(w AND m) AND d = 0"
    using assms by (simp add: and.assoc)
  show "((w AND m) OR d) AND NOT m = d"
    using nb by (auto simp: bit_simps intro!: bit_word_eqI)
qed

lemma disconnect_status:
  "\<not> isDisconnecting c s \<Longrightarrow> \<exists>w. status (disconnect c s) = w AND IO_STATUS_MODES c"
  by (auto simp: disconnect_def)

lemma disconnect_sense:
  "\<not> isDisconnecting c s \<Longrightarrow>
   PIN_CNF (port (disconnect c s)) (name (disconnect c s) mod 32) AND GPIO_PIN_CNF_SENSE_Msk = 0"
  by (simp add: disconnect_def clear_sense_and_modes_def set_PIN_CNF_def get_PIN_CNF_def Let_def
      PIN_def word_bw_assocs)

text \<open>
  Without an owner, or with a pin-locked one, \<^verbatim>\<open>disconnect\<close> calls nothing: it clears
  the SENSE bits and masks the status.
\<close>

lemma disconnect_permitted:
  "\<not> isDisconnecting c s \<Longrightarrow> owner_permits s \<Longrightarrow>
   disconnect c s =
     s\<lparr>port := (port s)\<lparr>PIN_CNF := (PIN_CNF (port s))
           (name s mod 32 := PIN_CNF (port s) (name s mod 32) AND NOT GPIO_PIN_CNF_SENSE_Msk)\<rparr>,
       status := status s AND IO_STATUS_MODES c\<rparr>"
  by (auto simp: disconnect_def owner_permits_def clear_sense_and_modes_def set_PIN_CNF_def
      get_PIN_CNF_def Let_def PIN_def split: option.splits)

text \<open>The slow path of \<^verbatim>\<open>setDigitalValue\<close> on a pin that was just disconnected.\<close>

lemma setDigitalValue_slow:
  "\<not> (status s AND IO_STATUS_DIGITAL_OUT c \<noteq> 0 \<and> owner_permits s) \<Longrightarrow>
   snd (setDigitalValue c v (disconnect c s0)) = t \<Longrightarrow> s = disconnect c s0 \<Longrightarrow>
   t = (let w = write_level v s
        in w\<lparr>port := (port w)\<lparr>PIN_CNF := (PIN_CNF (port w))
              (name s mod 32 := PIN_CNF (port s) (name s mod 32) OR 1)\<rparr>,
            status := status s OR IO_STATUS_DIGITAL_OUT c\<rparr>)"
  by (auto simp add: setDigitalValue_def Let_def disconnect_twice set_PIN_CNF_def get_PIN_CNF_def
      PIN_def write_level_def write_OUTSET_def write_OUTCLR_def)

text \<open>
  Claim C8, as stated: if the direction did flip, \<^verbatim>\<open>getAndSetDigitalValue(v)\<close> disconnects
  the prior peripheral, finalizes the status as DigitalOut, and returns success. Not
  always: pin 3, an input at a low level and held by the pin-locked peripheral 7, flips
  to output for \<open>v = 1\<close> and the call succeeds, but 7 is still the owner and its
  \<^verbatim>\<open>releasePin\<close> was never called; and on the same pin in the middle of a disconnect
  (status \<open>0x0421\<close>) the status ends as \<open>0x0423\<close>, with the digital-input flag, the
  edge-event flag and the re-entrancy flag still set beside the digital-output flag.
\<close>

theorem getAndSetDigitalValue_locked_owner_counterexample:
  "DIR (port example_pin) AND pin_mask example_pin = 0 \<and>
   \<not> bit (IN (port example_pin)) (PIN example_pin) \<and>
   obj example_pin = Some 7 \<and> ownerCalls example_pin = [PinConnect 7] \<and>
   fst (getAndSetDigitalValue example_platform 1 example_pin) = DEVICE_OK \<and>
   DIR (port (snd (getAndSetDigitalValue example_platform 1 example_pin))) = 8 \<and>
   obj (snd (getAndSetDigitalValue example_platform 1 example_pin)) = Some 7 \<and>
   ownerCalls (snd (getAndSetDigitalValue example_platform 1 example_pin)) = [PinConnect 7] \<and>
   fst (getAndSetDigitalValue example_platform 1 (example_pin\<lparr>status := 0x0421\<rparr>)) = DEVICE_OK \<and>
   status (snd (getAndSetDigitalValue example_platform 1 (example_pin\<lparr>status := 0x0421\<rparr>)))
     = 0x0423"
  by (simp add: example_pin_def example_platform_def example_port_def getAndSetDigitalValue_def
      get_and_set_def setDigitalValue_def owner_permits_def disconnect_def isDisconnecting_def
      clear_sense_and_modes_def write_level_def write_OUTSET_def write_DIRSET_def
      set_PIN_CNF_def get_PIN_CNF_def pin_mask_def PIN_def GPIO_PIN_CNF_SENSE_Msk_def Let_def)

text \<open>
  Claim C8, amended. With the direction bit clear, \<^verbatim>\<open>getAndSetDigitalValue(v)\<close> drives
  \<open>v\<close> on the output latch: it sets the pin's bit of \<^verbatim>\<open>OUT\<close> for a nonzero \<open>v\<close> and clears
  it for 0, and touches no other bit. It sets the direction bit only if the sampled
  input differs from \<open>v\<close>. If the input equals \<open>v\<close>, the direction stays input and the
  answer is \<^verbatim>\<open>DEVICE_BUSY\<close>, with nothing but the output latch written: no disconnect, no
  status change. If it differs, the direction bit is set, \<^verbatim>\<open>disconnect\<close> and then
  \<^verbatim>\<open>setDigitalValue(v)\<close> run, and the answer is success with the pin's bit of \<^verbatim>\<open>OUT\<close> at
  the level \<open>v\<close>. Unless the pin is in the middle of a disconnect, the direction bit
  of the pin's configuration is then set, its SENSE bits are clear, and of the status
  bits outside \<^verbatim>\<open>IO_STATUS_MODES\<close> exactly the digital-output flag is set (a flag that
  is not among the bits of \<^verbatim>\<open>IO_STATUS_MODES\<close>). If moreover the owner is not pin-locked,
  the owner reference is cleared, and the one call made is the owner's \<^verbatim>\<open>releasePin\<close>
  (for release callbacks that keep to the protocol). With no owner or a pin-locked one
  nothing is released: the state is the flipped one with the SENSE bits cleared, the
  configuration's direction bit set and the status reduced to its \<^verbatim>\<open>IO_STATUS_MODES\<close>
  bits plus the digital-output flag, the locked owner still attached. In the middle
  of a disconnect the owner stays, nothing is released, and the status only gains the
  digital-output flag.
\<close>

theorem getAndSetDigitalValue_from_input:
  assumes dir: "DIR (port s) AND push_bit (name s mod 32) 1 = 0"
    and transient: "IO_STATUS_MODES c AND IO_STATUS_DIGITAL_OUT c = 0"
  shows
   "(let m = push_bit (name s mod 32) 1;
         driven = s\<lparr>port := (port s)\<lparr>OUT :=
                    (if v \<noteq> 0 then OUT (port s) OR m else OUT (port s) AND NOT m)\<rparr>\<rparr>;
         flipped = driven\<lparr>port := (port driven)\<lparr>DIR := DIR (port s) OR m\<rparr>\<rparr>;
         r = getAndSetDigitalValue c v s;
         t = snd r
     in (bit (IN (port s)) (name s mod 32) = (v \<noteq> 0) \<longrightarrow> r = (DEVICE_BUSY, driven)) \<and>
        (bit (IN (port s)) (name s mod 32) \<noteq> (v \<noteq> 0) \<longrightarrow>
           r = (DEVICE_OK, snd (setDigitalValue c v (disconnect c flipped))) \<and>
           (bit (OUT (port t)) (name t mod 32) \<longleftrightarrow> v \<noteq> 0) \<and>
           (\<not> isDisconnecting c s \<longrightarrow>
              PIN_CNF (port t) (name t mod 32) AND 1 = 1 \<and>
              PIN_CNF (port t) (name t mod 32) AND GPIO_PIN_CNF_SENSE_Msk = 0 \<and>
              status t AND NOT (IO_STATUS_MODES c) = IO_STATUS_DIGITAL_OUT c) \<and>
           (\<not> isDisconnecting c s \<and> \<not> owner_locked s \<longrightarrow>
              obj t = None \<and>
              (release_keeps_protocol c \<longrightarrow>
                 ownerCalls t = ownerCalls s @ release_of (obj s))) \<and>
           (\<not> isDisconnecting c s \<and> owner_permits s \<longrightarrow>
              t = flipped\<lparr>port := (port flipped)\<lparr>PIN_CNF := (PIN_CNF (port s))
                      (name s mod 32 :=
                         (PIN_CNF (port s) (name s mod 32) AND NOT GPIO_PIN_CNF_SENSE_Msk) OR 1)\<rparr>,
                    status := (status s AND IO_STATUS_MODES c) OR IO_STATUS_DIGITAL_OUT c\<rparr>) \<and>
           (isDisconnecting c s \<longrightarrow>
              obj t = obj s \<and> ownerCalls t = ownerCalls s \<and>
              status t = (if status s AND IO_STATUS_DIGITAL_OUT c \<noteq> 0 \<and> owner_permits s
                          then status s else status s OR IO_STATUS_DIGITAL_OUT c))))"
proof -
  define m :: u32 where "m = push_bit (name s mod 32) 1"
  define driven where "driven = s\<lparr>port := (port s)\<lparr>OUT :=
                    (if v \<noteq> 0 then OUT (port s) OR m else OUT (port s) AND NOT m)\<rparr>\<rparr>"
  define flipped where "flipped = driven\<lparr>port := (port driven)\<lparr>DIR := DIR (port s) OR m\<rparr>\<rparr>"
  define t where "t = snd (setDigitalValue c v (disconnect c flipped))"
  have pm: "pin_mask s = m"
    by (simp add: pin_mask_def PIN_def m_def)
  have dir': "DIR (port s) AND pin_mask s = 0"
    using dir by (simp add: pm m_def)
  have wl: "write_level v s = driven"
    by (simp add: write_level_def write_OUTSET_def write_OUTCLR_def driven_def pm)
  have wd: "write_DIRSET (pin_mask s) (write_level v s) = flipped"
    by (simp add: wl write_DIRSET_def flipped_def pm driven_def)
  have busy: "getAndSetDigitalValue c v s = (DEVICE_BUSY, driven)"
    if eq: "bit (IN (port s)) (name s mod 32) = (v \<noteq> 0)"
  proof (cases "v = 0")
    case True
    with eq have "IN (port s) AND pin_mask s = 0" by (simp add: in_and_mask PIN_def)
    with True dir' show ?thesis
      by (simp add: getAndSetDigitalValue_def get_and_clr_def Let_def wl [symmetric])
  next
    case False
    with eq have "NOT (IN (port s)) AND pin_mask s = 0" by (simp add: not_in_and_mask PIN_def)
    with False dir' show ?thesis
      by (simp add: getAndSetDigitalValue_def get_and_set_def Let_def wl [symmetric])
  qed
  have ok: "getAndSetDigitalValue c v s = (DEVICE_OK, t)"
    if ne: "bit (IN (port s)) (name s mod 32) \<noteq> (v \<noteq> 0)"
  proof (cases "v = 0")
    case True
    with ne have "IN (port s) AND pin_mask s = pin_mask s" by (simp add: in_and_mask PIN_def)
    with True dir' show ?thesis
      unfolding t_def wd [symmetric]
      by (simp add: getAndSetDigitalValue_def get_and_clr_def Let_def or_mask_and_mask
          pin_mask_nz)
  next
    case False
    with ne have "NOT (IN (port s)) AND pin_mask s = pin_mask s"
      by (simp add: not_in_and_mask PIN_def)
    with False dir' show ?thesis
      unfolding t_def wd [symmetric]
      by (simp add: getAndSetDigitalValue_def get_and_set_def Let_def or_mask_and_mask
          pin_mask_nz)
  qed
  have fl_fields: "status flipped = status s" "obj flipped = obj s"
    "ownerCalls flipped = ownerCalls s" "pinLock flipped = pinLock s" "name flipped = name s"
    by (simp_all add: flipped_def driven_def)
  have fl_disc: "isDisconnecting c flipped = isDisconnecting c s"
    and fl_locked: "owner_locked flipped = owner_locked s"
    and fl_permits: "owner_permits flipped = owner_permits s"
    by (simp_all add: isDisconnecting_def owner_locked_def owner_permits_def fl_fields
        split: option.splits)
  have drives: "bit (OUT (port t)) (name t mod 32) \<longleftrightarrow> v \<noteq> 0"
    unfolding t_def by (rule setDigitalValue_drives)
  have slow: "\<not> (status (disconnect c flipped) AND IO_STATUS_DIGITAL_OUT c \<noteq> 0 \<and>
        owner_permits (disconnect c flipped))"
    if nd: "\<not> isDisconnecting c s"
  proof -
    from nd obtain w where "status (disconnect c flipped) = w AND IO_STATUS_MODES c"
      using disconnect_status [of c flipped] by (auto simp: fl_disc)
    then show ?thesis
      using masked_flag(1) [OF transient, of w] by simp
  qed
  have idle: "PIN_CNF (port t) (name t mod 32) AND 1 = 1 \<and>
        PIN_CNF (port t) (name t mod 32) AND GPIO_PIN_CNF_SENSE_Msk = 0 \<and>
        status t AND NOT (IO_STATUS_MODES c) = IO_STATUS_DIGITAL_OUT c"
    if nd: "\<not> isDisconnecting c s"
  proof -
    define d where "d = disconnect c flipped"
    from nd obtain w where w: "status d = w AND IO_STATUS_MODES c"
      using disconnect_status [of c flipped] by (auto simp: fl_disc d_def)
    have sense: "PIN_CNF (port d) (name d mod 32) AND GPIO_PIN_CNF_SENSE_Msk = 0"
      unfolding d_def using nd by (intro disconnect_sense) (simp add: fl_disc)
    have tt: "t = (let w = write_level v d
        in w\<lparr>port := (port w)\<lparr>PIN_CNF := (PIN_CNF (port w))
              (name d mod 32 := PIN_CNF (port d) (name d mod 32) OR 1)\<rparr>,
            status := status d OR IO_STATUS_DIGITAL_OUT c\<rparr>)"
      using setDigitalValue_slow [of d c v flipped t] slow [OF nd]
      by (simp add: d_def t_def)
    have one: "(1::u32) AND GPIO_PIN_CNF_SENSE_Msk = 0"
      by (simp add: GPIO_PIN_CNF_SENSE_Msk_def)
    have a: "PIN_CNF (port t) (name t mod 32) = PIN_CNF (port d) (name d mod 32) OR 1"
      by (simp add: tt Let_def)
    have b: "status t = (w AND IO_STATUS_MODES c) OR IO_STATUS_DIGITAL_OUT c"
      by (simp add: tt Let_def w)
    show ?thesis
      unfolding a b
      using sense one masked_flag(2) [OF transient, of w]
      by (simp add: bit.conj_disj_distrib2 word_bw_assocs)
  qed
  have released: "obj t = None \<and>
        (release_keeps_protocol c \<longrightarrow> ownerCalls t = ownerCalls s @ release_of (obj s))"
    if "\<not> isDisconnecting c s \<and> \<not> owner_locked s"
    using that disconnect_released [of c flipped]
    by (auto simp: t_def obj_setDigitalValue_disconnect ownerCalls_setDigitalValue_disconnect
        obj_disconnect fl_disc fl_locked fl_fields)
  have permitted: "t = flipped\<lparr>port := (port flipped)\<lparr>PIN_CNF := (PIN_CNF (port s))
                      (name s mod 32 :=
                         (PIN_CNF (port s) (name s mod 32) AND NOT GPIO_PIN_CNF_SENSE_Msk) OR 1)\<rparr>,
                    status := (status s AND IO_STATUS_MODES c) OR IO_STATUS_DIGITAL_OUT c\<rparr>"
    if "\<not> isDisconnecting c s \<and> owner_permits s"
  proof -
    from that have nd: "\<not> isDisconnecting c s" and op: "owner_permits s" by simp_all
    define d where "d = disconnect c flipped"
    have dd: "d = flipped\<lparr>port := (port flipped)\<lparr>PIN_CNF := (PIN_CNF (port flipped))
           (name flipped mod 32 :=
              PIN_CNF (port flipped) (name flipped mod 32) AND NOT GPIO_PIN_CNF_SENSE_Msk)\<rparr>,
       status := status flipped AND IO_STATUS_MODES c\<rparr>"
      unfolding d_def using nd op by (intro disconnect_permitted) (simp_all add: fl_disc fl_permits)
    have tt: "t = (let w = write_level v d
        in w\<lparr>port := (port w)\<lparr>PIN_CNF := (PIN_CNF (port w))
              (name d mod 32 := PIN_CNF (port d) (name d mod 32) OR 1)\<rparr>,
            status := status d OR IO_STATUS_DIGITAL_OUT c\<rparr>)"
      using setDigitalValue_slow [of d c v flipped t] slow [OF nd]
      by (simp add: d_def t_def)
    show ?thesis
      unfolding tt dd
      by (simp add: Let_def write_level_def write_OUTSET_def write_OUTCLR_def flipped_def
          driven_def pin_mask_def PIN_def m_def word_bw_assocs)
  qed
  have reentrant: "obj t = obj s \<and> ownerCalls t = ownerCalls s \<and>
        status t = (if status s AND IO_STATUS_DIGITAL_OUT c \<noteq> 0 \<and> owner_permits s
                    then status s else status s OR IO_STATUS_DIGITAL_OUT c)"
    if dc: "isDisconnecting c s"
  proof -
    have d: "disconnect c flipped = flipped"
      using dc by (simp add: disconnect_def fl_disc)
    show ?thesis
      unfolding t_def d
      by (simp add: setDigitalValue_def Let_def d fl_fields fl_permits write_level_def
          write_OUTSET_def write_OUTCLR_def set_PIN_CNF_def)
  qed
  show ?thesis
    unfolding Let_def
    using busy ok drives idle released permitted reentrant
    unfolding m_def [symmetric] driven_def [symmetric] flipped_def [symmetric] t_def
    by (auto simp: m_def [symmetric] driven_def [symmetric] flipped_def [symmetric])
qed

theorem getAndSetDigitalValue_from_input_witness:
  "DIR (port unlocked_pin) AND push_bit (name unlocked_pin mod 32) 1 = 0 \<and>
   IO_STATUS_MODES example_platform AND IO_STATUS_DIGITAL_OUT example_platform = 0 \<and>
   getAndSetDigitalValue example_platform 0 (fresh_pin\<lparr>port := example_port\<lparr>OUT := 8\<rparr>\<rparr>) =
     (DEVICE_BUSY, fresh_pin) \<and>
   fst (getAndSetDigitalValue example_platform 1 unlocked_pin) = DEVICE_OK \<and>
   obj (snd (getAndSetDigitalValue example_platform 1 unlocked_pin)) = None \<and>
   ownerCalls (snd (getAndSetDigitalValue example_platform 1 unlocked_pin)) =
     [PinConnect 7, ReleasePin 7] \<and>
   status (snd (getAndSetDigitalValue example_platform 1 unlocked_pin)) AND NOT 0x0B00 = 2 \<and>
   getAndSetDigitalValue example_platform 1 example_pin =
     (DEVICE_OK, example_pin\<lparr>port := example_port\<lparr>PIN_CNF := (\<lambda>i. 0x00020000)(3 := 1),
        OUT := 8, DIR := 8\<rparr>, status := 2\<rparr>) \<and>
   obj (snd (getAndSetDigitalValue example_platform 1 (example_pin\<lparr>status := 0x0421\<rparr>)))
     = Some 7 \<and>
   status (snd (getAndSetDigitalValue example_platform 1 (example_pin\<lparr>status := 0x0421\<rparr>)))
     = 0x0423"
proof -
  define busy_pin where "busy_pin = example_pin\<lparr>status := 0x0421\<rparr>"
  define high_pin where "high_pin = fresh_pin\<lparr>port := example_port\<lparr>OUT := 8\<rparr>\<rparr>"
  have d: "DIR (port unlocked_pin) AND push_bit (name unlocked_pin mod 32) 1 = 0"
    "DIR (port example_pin) AND push_bit (name example_pin mod 32) 1 = 0"
    "DIR (port busy_pin) AND push_bit (name busy_pin mod 32) 1 = 0"
    "DIR (port high_pin) AND push_bit (name high_pin mod 32) 1 = 0"
    by (simp_all add: unlocked_pin_def busy_pin_def high_pin_def fresh_pin_def example_pin_def
        example_port_def)
  have m: "IO_STATUS_MODES example_platform AND IO_STATUS_DIGITAL_OUT example_platform = 0"
    by (simp add: example_platform_def)
  note a = getAndSetDigitalValue_from_input [OF d(4) m, of 0, unfolded Let_def]
  note b = getAndSetDigitalValue_from_input [OF d(1) m, of 1, unfolded Let_def]
  note e = getAndSetDigitalValue_from_input [OF d(2) m, of 1, unfolded Let_def]
  note f = getAndSetDigitalValue_from_input [OF d(3) m, of 1, unfolded Let_def]
  have keeps: "release_keeps_protocol example_platform"
    by (simp add: release_keeps_protocol_def example_platform_def)
  have r0: "getAndSetDigitalValue example_platform 0 high_pin = (DEVICE_BUSY, fresh_pin)"
    using a [THEN conjunct1]
    by (simp add: high_pin_def fresh_pin_def example_pin_def example_port_def)
  have in1: "bit (IN (port unlocked_pin)) (name unlocked_pin mod 32) \<noteq> ((1::int) \<noteq> 0)"
    "bit (IN (port example_pin)) (name example_pin mod 32) \<noteq> ((1::int) \<noteq> 0)"
    "bit (IN (port busy_pin)) (name busy_pin mod 32) \<noteq> ((1::int) \<noteq> 0)"
    by (simp_all add: unlocked_pin_def busy_pin_def example_pin_def example_port_def)
  have free: "\<not> isDisconnecting example_platform unlocked_pin \<and> \<not> owner_locked unlocked_pin"
    by (simp add: isDisconnecting_def owner_locked_def unlocked_pin_def example_pin_def
        example_platform_def)
  have o: "obj unlocked_pin = Some 7" "ownerCalls unlocked_pin = [PinConnect 7]"
    by (simp_all add: unlocked_pin_def example_pin_def)
  note b' = b [THEN conjunct2, THEN mp, OF in1(1)]
  have r1: "fst (getAndSetDigitalValue example_platform 1 unlocked_pin) = DEVICE_OK"
    using b' [THEN conjunct1] by simp
  have r2: "obj (snd (getAndSetDigitalValue example_platform 1 unlocked_pin)) = None \<and>
     ownerCalls (snd (getAndSetDigitalValue example_platform 1 unlocked_pin)) =
       [PinConnect 7, ReleasePin 7]"
    using b' [THEN conjunct2, THEN conjunct2, THEN conjunct2, THEN conjunct1] free keeps
    by (simp add: release_of_def o)
  have r3: "status (snd (getAndSetDigitalValue example_platform 1 unlocked_pin)) AND NOT 0x0B00 = 2"
    using b' [THEN conjunct2, THEN conjunct2, THEN conjunct1] free
    by (simp add: example_platform_def)
  have lock: "\<not> isDisconnecting example_platform example_pin \<and> owner_permits example_pin"
    by (simp add: isDisconnecting_def owner_permits_def example_pin_def example_platform_def)
  note e' = e [THEN conjunct2, THEN mp, OF in1(2)]
  have r4: "getAndSetDigitalValue example_platform 1 example_pin =
     (DEVICE_OK, example_pin\<lparr>port := example_port\<lparr>PIN_CNF := (\<lambda>i. 0x00020000)(3 := 1),
        OUT := 8, DIR := 8\<rparr>, status := 2\<rparr>)"
    using e' [THEN conjunct1]
      e' [THEN conjunct2, THEN conjunct2, THEN conjunct2, THEN conjunct2, THEN conjunct1] lock
    by (simp add: prod_eq_iff example_pin_def example_port_def example_platform_def
        GPIO_PIN_CNF_SENSE_Msk_def)
  have dis: "isDisconnecting example_platform busy_pin"
    by (simp add: isDisconnecting_def busy_pin_def example_platform_def)
  note f' = f [THEN conjunct2, THEN mp, OF in1(3)]
  have r5: "obj (snd (getAndSetDigitalValue example_platform 1 busy_pin)) = Some 7 \<and>
     status (snd (getAndSetDigitalValue example_platform 1 busy_pin)) = 0x0423"
    using f' [THEN conjunct2, THEN conjunct2, THEN conjunct2, THEN conjunct2, THEN conjunct2] dis
    by (simp add: busy_pin_def example_pin_def example_platform_def)
  from d(1) m r0 r1 r2 r3 r4 r5 show ?thesis
    unfolding busy_pin_def high_pin_def by blast
qed

text \<open>
  Claim C10. With the direction bit already set, \<^verbatim>\<open>getAndSetDigitalValue(v)\<close> answers
  0, the code of success, and touches nothing: the output register is not written, the
  status and the owner are as before. The requested level is not applied.
\<close>

theorem getAndSetDigitalValue_when_output:
  assumes "DIR (port s) AND pin_mask s \<noteq> 0"
  shows "getAndSetDigitalValue c v s = (DEVICE_OK, s)"
  using assms by (simp add: getAndSetDigitalValue_def Let_def)

theorem getAndSetDigitalValue_when_output_witness:
  "DIR (port output_pin) AND pin_mask output_pin \<noteq> 0 \<and>
   OUT (port output_pin) = 0 \<and>
   getAndSetDigitalValue example_platform 1 output_pin = (DEVICE_OK, output_pin)"
proof -
  have h: "DIR (port output_pin) AND pin_mask output_pin \<noteq> 0"
    by (simp add: output_pin_def fresh_pin_def example_pin_def example_port_def pin_mask_def
        PIN_def)
  have "OUT (port output_pin) = 0"
    by (simp add: output_pin_def example_port_def)
  with h getAndSetDigitalValue_when_output [OF h, of example_platform 1] show ?thesis
    by blast
qed

section \<open>Properties of the interrupt demultiplexer\<close>

lemma irq_loop_0: "irq_loop c off 0 s = s"
  by (subst irq_loop.simps) simp

lemma irq_loop_step:
  "latch \<noteq> 0 \<Longrightarrow>
   irq_loop c off latch s =
     irq_loop c off (latch AND NOT (push_bit (31 - clz latch) 1))
       (pin_changed c (31 - clz latch) off s)"
  by (subst irq_loop.simps) (simp add: Let_def)

lemma flip_sense:
  "(w XOR 0x00010000) AND 0x00010000 \<noteq> 0 \<longleftrightarrow> w AND 0x00010000 = (0::u32)"
proof -
  have e: "(0x00010000 :: u32) = 2 ^ 16" by simp
  have "bit (w XOR 2 ^ 16) 16 \<longleftrightarrow> \<not> bit w 16"
    by (simp add: bit_simps)
  then show ?thesis
    unfolding e by (simp only: and_exp_eq_0_iff_not_bit) simp
qed

lemma pin_changed_frame [simp]:
  "irq_pins (pin_changed c n off s) = irq_pins s"
  "deepsleep_pending (pin_changed c n off s) = deepsleep_pending s"
  "LATCH (GPIO_PORT (pin_changed c n off s)) = LATCH (GPIO_PORT s)"
  "m \<noteq> n \<Longrightarrow> PIN_CNF (GPIO_PORT (pin_changed c n off s)) m = PIN_CNF (GPIO_PORT s) m"
  by (simp_all add: pin_changed_def edge_dispatch_def Let_def split: option.splits)

lemma pin_changed_edge:
  assumes "irq_pins s (n + off) = Some st" and "st AND edge_flags c \<noteq> 0"
  shows "dispatched (pin_changed c n off s) = dispatched s @ edge_of s n off # wake_of c s st"
  using assms
  by (simp add: pin_changed_def edge_dispatch_def edge_of_def wake_of_def Let_def flip_sense)

lemma wake_of_pin_changed [simp]: "wake_of c (pin_changed c n off s) st = wake_of c s st"
  by (simp add: wake_of_def)

lemma edge_of_pin_changed [simp]:
  "m \<noteq> n \<Longrightarrow> edge_of (pin_changed c n off s) m off' = edge_of s m off'"
  by (simp add: edge_of_def)

lemma clz_latch_values:
  "clz 0x00100088 = 11" "clz 0x00000088 = 24" "clz 0x00000008 = 28"
  by (simp_all add: clz_def eval_nat_numeral)

text \<open>
  Claim C4. With exactly the latch bits 3, 7 and 20 set and the three pins registered
  for edge events, one run of the handler calls rise or fall exactly once for each of
  them, pin 20 first, then pin 7, then pin 3 (each call followed only by the
  deep-sleep cancellation, if that pin wakes on activity and a deep sleep is pending),
  and leaves the latch of the port empty.
\<close>

theorem irq_demux_highest_first:
  assumes latch: "LATCH (GPIO_PORT s) = 0x00100088"
    and p20: "irq_pins s (20 + off) = Some st20" "st20 AND edge_flags c \<noteq> 0"
    and p7: "irq_pins s (7 + off) = Some st7" "st7 AND edge_flags c \<noteq> 0"
    and p3: "irq_pins s (3 + off) = Some st3" "st3 AND edge_flags c \<noteq> 0"
  shows "dispatched (process_gpio_irq c off s) =
           dispatched s @ edge_of s 20 off # wake_of c s st20
                        @ edge_of s 7 off # wake_of c s st7
                        @ edge_of s 3 off # wake_of c s st3 \<and>
         LATCH (GPIO_PORT (process_gpio_irq c off s)) = 0"
proof -
  define s1 where "s1 = pin_changed c 20 off s"
  define s2 where "s2 = pin_changed c 7 off s1"
  define s3 where "s3 = pin_changed c 3 off s2"
  have l1: "irq_loop c off 0x00100088 s = irq_loop c off 0x00000088 s1"
    using irq_loop_step [of "0x00100088" c off s] by (simp add: clz_latch_values s1_def)
  have l2: "irq_loop c off 0x00000088 s1 = irq_loop c off 0x00000008 s2"
    using irq_loop_step [of "0x00000088" c off s1] by (simp add: clz_latch_values s2_def)
  have l3: "irq_loop c off 0x00000008 s2 = irq_loop c off 0 s3"
    using irq_loop_step [of "0x00000008" c off s2] by (simp add: clz_latch_values s3_def)
  have loop: "irq_loop c off (LATCH (GPIO_PORT s)) s = s3"
    by (simp add: latch l1 l2 l3 irq_loop_0)
  have d1: "dispatched s1 = dispatched s @ edge_of s 20 off # wake_of c s st20"
    unfolding s1_def by (rule pin_changed_edge [OF p20])
  have d2: "dispatched s2 = dispatched s1 @ edge_of s 7 off # wake_of c s st7"
    using pin_changed_edge [of s1 7 off st7 c] p7 by (simp add: s1_def s2_def)
  have d3: "dispatched s3 = dispatched s2 @ edge_of s 3 off # wake_of c s st3"
    using pin_changed_edge [of s2 3 off st3 c] p3 by (simp add: s1_def s2_def s3_def)
  have n0: "NOT (0xffffffff :: u32) = 0"
  proof -
    have "(0xffffffff :: u32) = - 1" by simp
    then show ?thesis by (simp only: bit.compl_one)
  qed
  show ?thesis
    unfolding process_gpio_irq_def Let_def loop n0
    by (simp add: d1 d2 d3)
qed

theorem irq_demux_highest_first_witness:
  "LATCH (GPIO_PORT example_irq) = 0x00100088 \<and>
   irq_pins example_irq 20 = Some 0x0021 \<and> irq_pins example_irq 7 = Some 0x0021 \<and>
   irq_pins example_irq 3 = Some 0x0021 \<and> 0x0021 AND edge_flags example_platform \<noteq> 0 \<and>
   dispatched (process_gpio_irq example_platform 0 example_irq) = [Rise 20, Rise 7, Rise 3] \<and>
   LATCH (GPIO_PORT (process_gpio_irq example_platform 0 example_irq)) = 0"
proof -
  have h: "LATCH (GPIO_PORT example_irq) = 0x00100088"
    by (simp add: example_irq_def)
  have p20: "irq_pins example_irq (20 + 0) = Some 0x0021"
    and p7: "irq_pins example_irq (7 + 0) = Some 0x0021"
    and p3: "irq_pins example_irq (3 + 0) = Some 0x0021"
    by (simp_all add: example_irq_def)
  have e: "0x0021 AND edge_flags example_platform \<noteq> 0"
    by (simp add: edge_flags_def example_platform_def)
  have w: "wake_of example_platform example_irq 0x0021 = []"
    by (simp add: wake_of_def example_irq_def)
  have r: "edge_of example_irq 20 0 = Rise 20" "edge_of example_irq 7 0 = Rise 7"
    "edge_of example_irq 3 0 = Rise 3"
    by (simp_all add: edge_of_def example_irq_def example_port_def)
  have d: "dispatched example_irq = []"
    by (simp add: example_irq_def)
  from irq_demux_highest_first [OF h p20 e p7 e p3 e]
  have "dispatched (process_gpio_irq example_platform 0 example_irq) = [Rise 20, Rise 7, Rise 3]"
    and "LATCH (GPIO_PORT (process_gpio_irq example_platform 0 example_irq)) = 0"
    by (simp_all add: w r d)
  with h p20 p7 p3 e show ?thesis
    by simp
qed

section \<open>Properties of the single-precision rounding\<close>

lemma round_even_error: "\<bar>of_int (round_even y) - y\<bar> \<le> 1 / 2"
  unfolding round_even_def Let_def
  by (auto simp: abs_if) linarith+

lemma round_even_of_int [simp]: "round_even (of_int m) = m"
  by (simp add: round_even_def)

lemma f32_exponent_lower:
  assumes "x \<noteq> 0"
  shows "2 powi f32_exponent x \<le> \<bar>x\<bar>"
proof (cases "1 \<le> \<bar>x\<bar>")
  case True
  define n where "n = nat \<lfloor>\<bar>x\<bar>\<rfloor>"
  have n: "0 < n" using True by (simp add: n_def)
  have e: "f32_exponent x = int (floorlog 2 n - 1)"
    using True n floorlog_eq_zero_iff [of 2 n]
    by (simp add: f32_exponent_def n_def Let_def of_nat_diff)
  have "2 ^ (floorlog 2 n - 1) \<le> n"
    using floorlog_bounds [of n 2] n by simp
  then have "(2::rat) ^ (floorlog 2 n - 1) \<le> of_nat n"
    by (metis of_nat_le_iff of_nat_numeral of_nat_power)
  also have "(of_nat n :: rat) \<le> \<bar>x\<bar>"
    using True by (simp add: n_def)
  finally show ?thesis
    by (simp add: e)
next
  case False
  define a where "a = \<bar>x\<bar>"
  have a: "0 < a" "a < 1" using assms False by (simp_all add: a_def)
  define n where "n = nat (\<lceil>1 / a\<rceil> - 1)"
  have "1 < 1 / a" using a by simp
  then have c: "2 \<le> \<lceil>1 / a\<rceil>" by linarith
  then have nn: "int n = \<lceil>1 / a\<rceil> - 1" unfolding n_def by linarith
  from c nn have n: "0 < n" by linarith
  have e: "f32_exponent x = - int (floorlog 2 n)"
    using False by (simp add: f32_exponent_def n_def a_def Let_def)
  have "n < 2 ^ floorlog 2 n"
    using floorlog_bounds [of n 2] n by simp
  then have "int n < 2 ^ floorlog 2 n"
    by (metis of_nat_less_iff of_nat_numeral of_nat_power)
  then have "\<lceil>1 / a\<rceil> \<le> 2 ^ floorlog 2 n"
    using nn by linarith
  then have "1 / a \<le> 2 ^ floorlog 2 n"
    by (metis ceiling_le_iff of_int_numeral of_int_power)
  then have "1 \<le> 2 ^ floorlog 2 n * a"
    using a by (simp add: field_simps)
  then have "1 / 2 ^ floorlog 2 n \<le> a"
    by (simp add: field_simps)
  then show ?thesis
    by (simp add: e a_def power_int_minus_divide)
qed

lemma f32_exponent_upper:
  assumes "x \<noteq> 0"
  shows "\<bar>x\<bar> < 2 powi (f32_exponent x + 1)"
proof (cases "1 \<le> \<bar>x\<bar>")
  case True
  define n where "n = nat \<lfloor>\<bar>x\<bar>\<rfloor>"
  have n: "0 < n" using True by (simp add: n_def)
  have k: "0 < floorlog 2 n" using n floorlog_eq_zero_iff [of 2 n] by simp
  have e: "f32_exponent x + 1 = int (floorlog 2 n)"
    using True by (simp add: f32_exponent_def n_def Let_def)
  have "n < 2 ^ floorlog 2 n"
    using floorlog_bounds [of n 2] n by simp
  then have "int n + 1 \<le> 2 ^ floorlog 2 n"
    by (metis of_nat_less_iff of_nat_numeral of_nat_power zless_imp_add1_zle)
  then have "\<lfloor>\<bar>x\<bar>\<rfloor> + 1 \<le> 2 ^ floorlog 2 n"
    using True by (simp add: n_def)
  then have "(of_int (\<lfloor>\<bar>x\<bar>\<rfloor> + 1) :: rat) \<le> 2 ^ floorlog 2 n"
    by (metis of_int_le_iff of_int_numeral of_int_power)
  moreover have "\<bar>x\<bar> < of_int (\<lfloor>\<bar>x\<bar>\<rfloor> + 1)"
    by linarith
  ultimately show ?thesis
    by (simp add: e)
next
  case False
  define a where "a = \<bar>x\<bar>"
  have a: "0 < a" "a < 1" using assms False by (simp_all add: a_def)
  define n where "n = nat (\<lceil>1 / a\<rceil> - 1)"
  have "1 < 1 / a" using a by simp
  then have c: "2 \<le> \<lceil>1 / a\<rceil>" by linarith
  then have nn: "int n = \<lceil>1 / a\<rceil> - 1" unfolding n_def by linarith
  from c nn have n: "0 < n" by linarith
  have k: "0 < floorlog 2 n" using n floorlog_eq_zero_iff [of 2 n] by simp
  have e: "f32_exponent x + 1 = - int (floorlog 2 n - 1)"
    using False k by (simp add: f32_exponent_def n_def a_def Let_def of_nat_diff)
  have "2 ^ (floorlog 2 n - 1) \<le> n"
    using floorlog_bounds [of n 2] n by simp
  then have "(2::int) ^ (floorlog 2 n - 1) \<le> int n"
    by (metis of_nat_le_iff of_nat_numeral of_nat_power)
  then have "(2::int) ^ (floorlog 2 n - 1) \<le> \<lceil>1 / a\<rceil> - 1"
    using nn by linarith
  then have "(of_int (2 ^ (floorlog 2 n - 1)) :: rat) \<le> of_int (\<lceil>1 / a\<rceil> - 1)"
    by (simp only: of_int_le_iff)
  moreover have "of_int (\<lceil>1 / a\<rceil> - 1) < 1 / a"
    by linarith
  ultimately have "2 ^ (floorlog 2 n - 1) < 1 / a"
    by simp
  then have "2 ^ (floorlog 2 n - 1) * a < 1"
    using a by (simp add: field_simps)
  then have "a < 1 / 2 ^ (floorlog 2 n - 1)"
    by (simp add: field_simps)
  then show ?thesis
    by (simp add: e a_def power_int_minus_divide)
qed

lemma powi_pos [simp]: "0 < (2::rat) powi e"
  by (simp add: power_int_def)

lemma powi_less_iff: "(2::rat) powi a < 2 powi b \<longleftrightarrow> a < b"
proof
  assume l: "(2::rat) powi a < 2 powi b"
  show "a < b"
  proof (rule ccontr)
    assume "\<not> a < b"
    then have "(2::rat) powi b \<le> 2 powi a"
      by (intro power_int_increasing) simp_all
    with l show False by simp
  qed
next
  assume "a < b"
  then show "(2::rat) powi a < 2 powi b"
    by (intro power_int_strict_increasing) simp_all
qed

lemma f32_exponent_eqI:
  assumes "2 powi e \<le> \<bar>x\<bar>" and "\<bar>x\<bar> < 2 powi (e + 1)"
  shows "f32_exponent x = e"
proof -
  have x: "x \<noteq> 0"
  proof
    assume "x = 0"
    with assms(1) have "(2::rat) powi e \<le> 0" by simp
    with powi_pos [of e] show False by linarith
  qed
  let ?f = "f32_exponent x"
  have "(2::rat) powi ?f < 2 powi (e + 1)"
    using f32_exponent_lower [OF x] assms(2) by simp
  then have 1: "?f < e + 1"
    by (simp add: powi_less_iff) 
  have "(2::rat) powi e < 2 powi (?f + 1)"
    using f32_exponent_upper [OF x] assms(1) by simp
  then have 2: "e < ?f + 1"
    by (simp add: powi_less_iff)
  from 1 2 show ?thesis by simp
qed

lemma f32_eqI:
  assumes "2 powi e \<le> \<bar>x\<bar>" and "\<bar>x\<bar> < 2 powi (e + 1)"
    and "round_even (x / 2 powi (e - 23)) = m"
  shows "f32 x = of_int m * 2 powi (e - 23)"
proof -
  have x: "x \<noteq> 0"
  proof
    assume "x = 0"
    with assms(1) have "(2::rat) powi e \<le> 0" by simp
    with powi_pos [of e] show False by linarith
  qed
  show ?thesis
    using x assms(3) by (simp add: f32_def f32_exponent_eqI [OF assms(1,2)])
qed

lemma f32_error: "\<bar>f32 x - x\<bar> \<le> \<bar>x\<bar> / 2 ^ 24"
proof (cases "x = 0")
  case True
  then show ?thesis by (simp add: f32_def)
next
  case False
  define u :: rat where "u = 2 powi (f32_exponent x - 23)"
  have u: "0 < u" by (simp add: u_def)
  have "f32 x - x = (of_int (round_even (x / u)) - x / u) * u"
    using False u by (simp add: f32_def u_def [symmetric] field_simps)
  then have "\<bar>f32 x - x\<bar> = \<bar>of_int (round_even (x / u)) - x / u\<bar> * u"
    using u by (simp add: abs_mult)
  also have "\<dots> \<le> 1 / 2 * u"
    using round_even_error [of "x / u"] u by (simp add: mult_right_mono)
  also have "1 / 2 * u = 2 powi f32_exponent x / 2 ^ 24"
    by (simp add: u_def power_int_diff)
  also have "\<dots> \<le> \<bar>x\<bar> / 2 ^ 24"
    using f32_exponent_lower [OF False] by (simp add: divide_right_mono)
  finally show ?thesis .
qed

lemma f32_exact:
  assumes "\<bar>m\<bar> < 2 ^ 24"
  shows "f32 (of_int m * 2 powi k) = of_int m * 2 powi k"
proof (cases "m = 0")
  case True
  then show ?thesis by (simp add: f32_def)
next
  case False
  define x :: rat where "x = of_int m * 2 powi k"
  have x: "x \<noteq> 0" using False by (simp add: x_def)
  define e where "e = f32_exponent x"
  have "\<bar>x\<bar> = of_int \<bar>m\<bar> * 2 powi k"
    by (simp add: x_def abs_mult)
  also have "\<dots> < 2 ^ 24 * 2 powi k"
  proof -
    have "(of_int \<bar>m\<bar> :: rat) < 2 ^ 24"
      using assms by (metis of_int_less_iff of_int_numeral of_int_power)
    then show ?thesis by (simp add: mult_strict_right_mono)
  qed
  also have "\<dots> = 2 powi (24 + k)"
    by (simp add: power_int_add)
  finally have "(2::rat) powi e < 2 powi (24 + k)"
    using f32_exponent_lower [OF x] by (simp add: e_def)
  then have "e < 24 + k"
    by (simp only: powi_less_iff)
  then have "0 \<le> k - (e - 23)"
    by simp
  then obtain j :: nat where j: "k - (e - 23) = int j"
    using zero_le_imp_eq_int by blast
  have "k = int j + (e - 23)"
    using j by simp
  then have split: "(2::rat) powi k = 2 powi (int j) * 2 powi (e - 23)"
    using power_int_add [of "2::rat" "int j" "e - 23"] by simp
  have u: "(2::rat) powi (e - 23) \<noteq> 0"
    by simp
  have "x / 2 powi (e - 23) = of_int m * 2 powi (int j)"
    unfolding x_def split using u by simp
  also have "\<dots> = of_int (m * 2 ^ j)"
    by simp
  finally have "round_even (x / 2 powi (e - 23)) = m * 2 ^ j"
    by (simp only: round_even_of_int)
  then have "f32 x = of_int (m * 2 ^ j) * 2 powi (e - 23)"
    using x by (simp add: f32_def e_def)
  also have "\<dots> = of_int m * (2 powi (int j) * 2 powi (e - 23))"
    by simp
  also have "\<dots> = of_int m * 2 powi k"
    by (simp only: split)
  finally show ?thesis by (simp add: x_def)
qed

lemma f32_of_int: "\<bar>m\<bar> < 2 ^ 24 \<Longrightarrow> f32 (of_int m) = of_int m"
  using f32_exact [of m 0] by simp

lemma f32_nonneg: "0 \<le> x \<Longrightarrow> 0 \<le> f32 x"
proof -
  assume x: "0 \<le> x"
  have "x / 2 ^ 24 \<le> x"
    using x by (simp add: field_simps)
  with f32_error [of x] x show ?thesis
    by (simp add: abs_if split: if_splits)
qed

lemma f32_0 [simp]: "f32 0 = 0"
  by (simp add: f32_def)

lemma f32_dyadic: "\<bar>m\<bar> < 2 ^ 24 \<Longrightarrow> f32 (of_int m / 2 ^ k) = of_int m / 2 ^ k"
  using f32_exact [of m "- int k"] by (simp add: power_int_minus_divide)

lemma f32_to_int_of_int [simp]: "f32_to_int (of_int m) = m"
  by (simp add: f32_to_int_def)

lemma f32_to_int_bounds:
  assumes "0 \<le> x"
  shows "0 \<le> f32_to_int x" and "of_int (f32_to_int x) \<le> x" and "x - 1 < of_int (f32_to_int x)"
  using assms by (simp_all add: f32_to_int_def) linarith

lemma f32_near:
  assumes "0 \<le> x" and "x \<le> b"
  shows "x - b / 2 ^ 24 \<le> f32 x" and "f32 x \<le> x + b / 2 ^ 24"
proof -
  have "x / 2 ^ 24 \<le> b / 2 ^ 24"
    using assms by (simp add: divide_right_mono)
  with f32_error [of x] assms(1) show "x - b / 2 ^ 24 \<le> f32 x" and "f32 x \<le> x + b / 2 ^ 24"
    by (simp_all add: abs_if split: if_splits)
qed

lemma round_even_eqI:
  assumes "of_int m - 1 / 2 < y" and "y < of_int m + 1 / 2"
  shows "round_even y = m"
proof -
  have "\<lfloor>y\<rfloor> = m \<or> \<lfloor>y\<rfloor> = m - 1"
    using assms by linarith
  then show ?thesis
  proof
    assume f: "\<lfloor>y\<rfloor> = m"
    then have "y - of_int m < 1 / 2" using assms by simp
    then show ?thesis by (simp add: round_even_def f)
  next
    assume f: "\<lfloor>y\<rfloor> = m - 1"
    then have "1 / 2 < y - of_int (m - 1)" using assms by simp
    then show ?thesis by (simp add: round_even_def f)
  qed
qed

lemma f32_to_int_eqI: "of_int m \<le> x \<Longrightarrow> x < of_int m + 1 \<Longrightarrow> 0 \<le> m \<Longrightarrow> f32_to_int x = m"
  by (simp add: f32_to_int_def) linarith

text \<open>
  A check of the rounding against a well-known value: the float nearest to one tenth
  is \<open>13421773 / 2 ^ 27\<close>.
\<close>

lemma f32_one_tenth: "f32 (1 / 10) = 13421773 / 134217728"
proof -
  have "round_even ((1 / 10) / 2 powi (- 4 - 23)) = 13421773"
    by (rule round_even_eqI) simp_all
  then have "f32 (1 / 10) = of_int 13421773 * 2 powi (- 4 - 23)"
    by (intro f32_eqI) simp_all
  then show ?thesis
    by simp
qed

section \<open>Properties of the analog output operations\<close>

lemma duty_level_0:
  assumes "\<bar>sr\<bar> < 2 ^ 24"
  shows "duty c sr 0 = word_of_int sr"
proof -
  have "f32 1 = 1" using f32_of_int [of 1] by simp
  then show ?thesis
    using f32_of_int [OF assms] by (simp add: duty_def)
qed

lemma duty_level_max:
  assumes "DEVICE_PIN_MAX_OUTPUT c = 1023" and "0 \<le> sr" and "sr < 2 ^ 24"
  shows "duty c sr 1023 = word_of_int (sr div 1024)"
proof -
  have a: "f32 1023 = 1023" "f32 1024 = 1024"
    using f32_of_int [of 1023] f32_of_int [of 1024] by simp_all
  have b: "f32 (1023 / 1024) = 1023 / 1024"
    using f32_dyadic [of 1023 10] by simp
  have c: "f32 (1 / 1024) = 1 / 1024"
    using f32_dyadic [of 1 10] by simp
  have d: "f32 (of_int sr) = of_int sr"
    using assms by (intro f32_of_int) simp
  have e: "f32 (of_int sr / 1024) = of_int sr / 1024"
    using f32_dyadic [of sr 10] assms by simp
  have "f32_to_int (of_int sr / 1024) = sr div 1024"
    using assms(2) floor_divide_of_int_eq [of sr 1024, where ?'a = rat]
    by (simp add: f32_to_int_def)
  then show ?thesis
    by (simp add: duty_def assms(1) a b c d e)
qed

lemma duty_bounds:
  assumes M: "DEVICE_PIN_MAX_OUTPUT c = 1023" and v: "0 \<le> v" "v \<le> 1023"
    and sr: "0 \<le> sr" "sr < 65536"
  shows "of_int sr * (1 - of_int v / 1024) - 257 / 256 < (of_int (uint (duty c sr v)) :: rat)"
    and "(of_int (uint (duty c sr v)) :: rat) < of_int sr * (1 - of_int v / 1024) + 1 / 256"
proof -
  define x :: rat where "x = of_int sr * (1 - of_int v / 1024)"
  have a: "f32 (of_int v) = of_int v" "f32 1024 = 1024"
    using f32_of_int [of v] f32_of_int [of 1024] v by simp_all
  have b: "f32 (of_int v / 1024) = of_int v / 1024"
    using f32_dyadic [of v 10] v by simp
  have e: "(of_int (1024 - v) / 2 ^ 10 :: rat) = 1 - of_int v / 1024"
    by (simp add: field_simps)
  have "f32 (of_int (1024 - v) / 2 ^ 10) = of_int (1024 - v) / 2 ^ 10"
    using v by (intro f32_dyadic) simp
  then have c: "f32 (1 - of_int v / 1024) = 1 - of_int v / 1024"
    unfolding e .
  have d: "f32 (of_int sr) = of_int sr"
    using sr by (intro f32_of_int) simp
  have t: "0 \<le> (1 - of_int v / 1024 :: rat)" "(1 - of_int v / 1024 :: rat) \<le> 1"
    using v by (simp_all add: field_simps)
  have x0: "0 \<le> x"
    unfolding x_def using sr t by (intro mult_nonneg_nonneg) simp_all
  have "x \<le> of_int sr * 1"
    unfolding x_def using sr t by (intro mult_left_mono) simp_all
  moreover have "(of_int sr :: rat) \<le> 65535"
  proof -
    have "sr \<le> 65535" using sr by simp
    then have "(of_int sr :: rat) \<le> of_int 65535" by (simp only: of_int_le_iff)
    then show ?thesis by simp
  qed
  ultimately have x1: "x \<le> 65535" by simp
  note n = f32_near [OF x0 x1]
  define p where "p = f32 x"
  have p0: "0 \<le> p" unfolding p_def using x0 by (rule f32_nonneg)
  note i = f32_to_int_bounds [OF p0]
  have du: "duty c sr v = word_of_int (f32_to_int p)"
    by (simp add: duty_def M a b c d p_def x_def)
  have "of_int (f32_to_int p) \<le> x + 65535 / 2 ^ 24"
    using i(2) n(2) by (simp add: p_def)
  also have "\<dots> < 65536"
    using x1 by simp
  finally have "f32_to_int p < 65536"
    by (metis of_int_less_iff of_int_numeral)
  with i(1) have u: "uint (duty c sr v) = f32_to_int p"
    by (simp add: du uint_word_of_int)
  show "of_int sr * (1 - of_int v / 1024) - 257 / 256 < (of_int (uint (duty c sr v)) :: rat)"
    using i(3) n(1) unfolding u x_def [symmetric] p_def by simp
  show "(of_int (uint (duty c sr v)) :: rat) < of_int sr * (1 - of_int v / 1024) + 1 / 256"
    using i(2) n(2) unfolding u x_def [symmetric] p_def by simp
qed

lemma find_channel_4:
  "find_channel nm [a, b, c, d] =
     (if d = nm then 3 else if c = nm then 2 else if b = nm then 1 else if a = nm then 0 else - 1)"
  by (simp add: find_channel_def NRF52PIN_PWM_CHANNEL_MAP_SIZE_def upt_rec)

lemma setAnalogValue_valid:
  assumes "capability s AND PIN_CAPABILITY_ANALOG c \<noteq> 0"
    and "0 \<le> v" and "v \<le> DEVICE_PIN_MAX_OUTPUT c"
    and "prepare_channel c s = (ch, s')"
  shows "setAnalogValue c v s =
     (DEVICE_OK,
      s'\<lparr>pwmBuffer := (pwmBuffer s')[ch := duty c (sampleRange s') v],
         played := played s' @ [(pwmBuffer s')[ch := duty c (sampleRange s') v]]\<rparr>)"
  using assms by (simp add: setAnalogValue_def playAsync_def)

lemma prepare_channel_fresh:
  "fst (prepare_channel example_platform fresh_pin) = 0"
  "sampleRange (snd (prepare_channel example_platform fresh_pin)) = 20000"
  "pwmBuffer (snd (prepare_channel example_platform fresh_pin)) = [0, 0, 0, 0]"
  "pwmChannelMap (snd (prepare_channel example_platform fresh_pin)) = [3, - 1, - 1, - 1]"
  "played (snd (prepare_channel example_platform fresh_pin)) = []"
  by (simp_all add: prepare_channel_def allocate_channel_def initialisePWM_def disconnect_def
      isDisconnecting_def clear_sense_and_modes_def set_PIN_CNF_def get_PIN_CNF_def PIN_def
      owner_locked_def find_channel_4 NRF52PIN_PWM_CHANNEL_MAP_SIZE_def
      fresh_pin_def example_pin_def example_platform_def Let_def)

lemma uint_u16_of_int: "0 \<le> k \<Longrightarrow> k < 65536 \<Longrightarrow> uint (word_of_int k :: u16) = k"
  by (simp add: uint_word_of_int)

text \<open>
  Claim C5, as stated: level \<^verbatim>\<open>DEVICE_PIN_MAX_OUTPUT\<close> stores a duty of exactly zero. It
  does not: with the maximum level 1023 and a sample range of 20000, the entry of the
  pin's channel becomes 19.
\<close>

theorem setAnalogValue_max_level_counterexample:
  "capability fresh_pin AND PIN_CAPABILITY_ANALOG example_platform \<noteq> 0 \<and>
   DEVICE_PIN_MAX_OUTPUT example_platform = 1023 \<and>
   fst (setAnalogValue example_platform 1023 fresh_pin) = DEVICE_OK \<and>
   sampleRange (snd (setAnalogValue example_platform 1023 fresh_pin)) = 20000 \<and>
   pwmChannelMap (snd (setAnalogValue example_platform 1023 fresh_pin)) = [3, - 1, - 1, - 1] \<and>
   pwmBuffer (snd (setAnalogValue example_platform 1023 fresh_pin)) = [19, 0, 0, 0]"
proof -
  have cap: "capability fresh_pin AND PIN_CAPABILITY_ANALOG example_platform \<noteq> 0"
    by (simp add: fresh_pin_def example_pin_def example_platform_def)
  have M: "DEVICE_PIN_MAX_OUTPUT example_platform = 1023"
    by (simp add: example_platform_def)
  have d: "duty example_platform 20000 1023 = 19"
    using duty_level_max [OF M, of 20000] by simp
  obtain ch s' where su: "prepare_channel example_platform fresh_pin = (ch, s')"
    by (cases "prepare_channel example_platform fresh_pin")
  from prepare_channel_fresh have f: "ch = 0" "sampleRange s' = 20000" "pwmBuffer s' = [0, 0, 0, 0]"
    "pwmChannelMap s' = [3, - 1, - 1, - 1]"
    by (simp_all add: su)
  have v: "(0::int) \<le> 1023" "1023 \<le> DEVICE_PIN_MAX_OUTPUT example_platform"
    by (simp_all add: M)
  show ?thesis
    using cap M by (simp add: setAnalogValue_valid [OF cap v su] f d)
qed

text \<open>
  Claim C5, amended: for a pin with analog capability and every level \<open>v\<close> from 0 to
  \<^verbatim>\<open>DEVICE_PIN_MAX_OUTPUT\<close> (1023), \<^verbatim>\<open>setAnalogValue(v)\<close> succeeds, stores an inverted
  duty into the entry of the pin's channel and leaves the other entries alone: the
  entry lies within about one count of \<open>range * (1 - v / 1024)\<close>, level 0 gives the
  full sample range, and level 1023 gives the sample range divided by 1024 (rounded
  down), which is zero only for a sample range below 1024. The whole buffer is then
  handed to the PWM source.
\<close>

theorem setAnalogValue_inverted_duty:
  assumes cap: "capability s AND PIN_CAPABILITY_ANALOG c \<noteq> 0"
    and M: "DEVICE_PIN_MAX_OUTPUT c = 1023"
    and su: "prepare_channel c s = (ch, s')"
    and ch: "ch < length (pwmBuffer s')"
    and sr: "0 \<le> sampleRange s'" "sampleRange s' < 65536"
    and v: "0 \<le> v" "v \<le> 1023"
  shows "fst (setAnalogValue c v s) = DEVICE_OK \<and>
     played (snd (setAnalogValue c v s)) = played s' @ [pwmBuffer (snd (setAnalogValue c v s))] \<and>
     (\<forall>i. i \<noteq> ch \<longrightarrow> pwmBuffer (snd (setAnalogValue c v s)) ! i = pwmBuffer s' ! i) \<and>
     of_int (sampleRange s') * (1 - of_int v / 1024) - 257 / 256
       < (of_int (uint (pwmBuffer (snd (setAnalogValue c v s)) ! ch)) :: rat) \<and>
     (of_int (uint (pwmBuffer (snd (setAnalogValue c v s)) ! ch)) :: rat)
       < of_int (sampleRange s') * (1 - of_int v / 1024) + 1 / 256 \<and>
     uint (pwmBuffer (snd (setAnalogValue c 0 s)) ! ch) = sampleRange s' \<and>
     uint (pwmBuffer (snd (setAnalogValue c 1023 s)) ! ch) = sampleRange s' div 1024"
proof -
  have val: "setAnalogValue c w s =
     (DEVICE_OK,
      s'\<lparr>pwmBuffer := (pwmBuffer s')[ch := duty c (sampleRange s') w],
         played := played s' @ [(pwmBuffer s')[ch := duty c (sampleRange s') w]]\<rparr>)"
    if "0 \<le> w" "w \<le> 1023" for w
    using that by (intro setAnalogValue_valid [OF cap _ _ su]) (simp_all add: M)
  have d0: "uint (duty c (sampleRange s') 0) = sampleRange s'"
    using sr by (simp add: duty_level_0 uint_u16_of_int)
  have "0 \<le> sampleRange s' div 1024" "sampleRange s' div 1024 < 65536"
    using sr by simp_all
  then have d1: "uint (duty c (sampleRange s') 1023) = sampleRange s' div 1024"
    using sr by (simp add: duty_level_max [OF M] uint_u16_of_int)
  show ?thesis
    using ch duty_bounds [OF M v sr] d0 d1 by (simp add: val v)
qed

theorem setAnalogValue_inverted_duty_witness:
  "capability fresh_pin AND PIN_CAPABILITY_ANALOG example_platform \<noteq> 0 \<and>
   DEVICE_PIN_MAX_OUTPUT example_platform = 1023 \<and>
   fst (prepare_channel example_platform fresh_pin) = 0 \<and>
   sampleRange (snd (prepare_channel example_platform fresh_pin)) = 20000 \<and>
   length (pwmBuffer (snd (prepare_channel example_platform fresh_pin))) = 4 \<and>
   fst (setAnalogValue example_platform 512 fresh_pin) = DEVICE_OK \<and>
   uint (pwmBuffer (snd (setAnalogValue example_platform 0 fresh_pin)) ! 0) = 20000 \<and>
   uint (pwmBuffer (snd (setAnalogValue example_platform 1023 fresh_pin)) ! 0) = 19"
proof -
  have cap: "capability fresh_pin AND PIN_CAPABILITY_ANALOG example_platform \<noteq> 0"
    by (simp add: fresh_pin_def example_pin_def example_platform_def)
  have M: "DEVICE_PIN_MAX_OUTPUT example_platform = 1023"
    by (simp add: example_platform_def)
  have su: "prepare_channel example_platform fresh_pin
      = (0, snd (prepare_channel example_platform fresh_pin))"
    using prepare_channel_fresh(1) by (simp add: prod_eq_iff)
  have ch: "0 < length (pwmBuffer (snd (prepare_channel example_platform fresh_pin)))"
    and sr: "0 \<le> sampleRange (snd (prepare_channel example_platform fresh_pin))"
      "sampleRange (snd (prepare_channel example_platform fresh_pin)) < 65536"
    by (simp_all add: prepare_channel_fresh)
  have v: "(0::int) \<le> 512" "(512::int) \<le> 1023"
    by simp_all
  from setAnalogValue_inverted_duty [OF cap M su ch sr v]
  have "fst (setAnalogValue example_platform 512 fresh_pin) = DEVICE_OK"
    and "uint (pwmBuffer (snd (setAnalogValue example_platform 0 fresh_pin)) ! 0) = 20000"
    and "uint (pwmBuffer (snd (setAnalogValue example_platform 1023 fresh_pin)) ! 0) = 19"
    by (simp_all add: prepare_channel_fresh)
  with cap M show ?thesis
    by (simp add: prepare_channel_fresh)
qed

lemma cdiv_nonneg: "0 \<le> a \<Longrightarrow> 0 < b \<Longrightarrow> cdiv a b = a div b"
  by (cases "a = 0") (simp_all add: cdiv_def)

lemma servo_pulse_values:
  assumes "DEVICE_PIN_MAX_SERVO_RANGE c = 180"
  shows "servo_pulse c 0 180 90 = 0" "servo_pulse c 180 180 90 = 180"
    "servo_pulse c 0 2000 1500 = 500" "servo_pulse c 180 2000 1500 = 2500"
  by (simp_all add: servo_pulse_def assms cdiv_def)

lemma servo_level_500: "servo_level 500 = 25"
proof -
  have a: "f32 500 = 500" "f32 512000 = 512000"
    using f32_of_int [of 500] f32_of_int [of 512000] by simp_all
  have "round_even ((128 / 5) / 2 powi (4 - 23)) = 13421773"
    by (rule round_even_eqI) simp_all
  then have "f32 (128 / 5) = of_int 13421773 * 2 powi (4 - 23)"
    by (intro f32_eqI) simp_all
  then have b: "f32 (128 / 5) = 13421773 / 524288"
    by simp
  have "f32_to_int (13421773 / 524288) = 25"
    by (rule f32_to_int_eqI) simp_all
  then show ?thesis
    by (simp add: servo_level_def a b)
qed

lemma servo_level_2500: "servo_level 2500 = 128"
proof -
  have a: "f32 2500 = 2500" "f32 2560000 = 2560000" "f32 128 = 128"
    using f32_of_int [of 2500] f32_of_int [of 2560000] f32_of_int [of 128] by simp_all
  have "f32_to_int 128 = 128"
    using f32_to_int_of_int [of 128] by simp
  then show ?thesis
    by (simp add: servo_level_def a)
qed

lemma servo_pulse_formula:
  assumes M: "DEVICE_PIN_MAX_SERVO_RANGE c = 180"
    and v: "0 \<le> v" and r: "1 \<le> range'" "range' \<le> 1000000"
    and ce: "1 \<le> center" "range' div 2 \<le> center" "center \<le> 1000000"
  shows "servo_pulse c v range' center =
           ((center - range' div 2) * 1000 + range' * (min v 180 * 1000 div 180)) div 1000"
    and "0 \<le> servo_pulse c v range' center"
    and "servo_pulse c v range' center < 2 ^ 32"
proof -
  define q where "q = min v 180 * 1000 div 180"
  define lower where "lower = (center - range' div 2) * 1000"
  have m: "0 \<le> min v 180 * 1000" "min v 180 * 1000 \<le> 180000"
    using v by (simp_all add: min_def)
  have "min v 180 * 1000 div 180 \<le> 180000 div 180"
    using m(2) by (intro zdiv_mono1) simp_all
  then have q: "0 \<le> q" "q \<le> 1000"
    using m(1) by (simp_all add: q_def pos_imp_zdiv_nonneg_iff)
  have l: "0 \<le> lower" "lower \<le> 1000000000"
    using ce r by (simp_all add: lower_def)
  have rq0: "0 \<le> range' * q"
    using r q by simp
  have "range' * q \<le> 1000000 * 1000"
    using r q by (intro mult_mono) simp_all
  then have rq1: "range' * q \<le> 1000000000"
    by simp
  have val: "(if 180 < v then 180 else v) = min v 180"
    by (simp add: min_def)
  have c1: "cdiv range' 2 = range' div 2"
    using r by (intro cdiv_nonneg) simp_all
  have c2: "cdiv (min v 180 * 1000) 180 = q"
    unfolding q_def using v by (intro cdiv_nonneg) simp_all
  have c3: "cdiv (lower + range' * q) 1000 = (lower + range' * q) div 1000"
    using l rq0 by (intro cdiv_nonneg) simp_all
  have p: "servo_pulse c v range' center = (lower + range' * q) div 1000"
    by (simp only: servo_pulse_def M Let_def val c1 c2 lower_def [symmetric] c3)
  show "servo_pulse c v range' center =
           ((center - range' div 2) * 1000 + range' * (min v 180 * 1000 div 180)) div 1000"
    by (simp add: p lower_def q_def)
  show "0 \<le> servo_pulse c v range' center"
    using l rq0 by (simp add: p)
  have "(lower + range' * q) div 1000 \<le> 2000000000 div 1000"
    using l rq1 by (intro zdiv_mono1) simp_all
  then show "servo_pulse c v range' center < 2 ^ 32"
    by (simp add: p)
qed

text \<open>
  Claim C6, as stated: \<^verbatim>\<open>setServoValue(0, 180, 90)\<close> gives a pulse of 500 microseconds and
  \<^verbatim>\<open>setServoValue(180, 180, 90)\<close> one of 2500. With a range of 180 and a center of 90
  the pulse widths passed on are 0 and 180.
\<close>

theorem setServoValue_180_90_counterexample:
  "capability fresh_pin AND PIN_CAPABILITY_ANALOG example_platform \<noteq> 0 \<and>
   DEVICE_PIN_MAX_SERVO_RANGE example_platform = 180 \<and>
   servo_pulse example_platform 0 180 90 = 0 \<and>
   servo_pulse example_platform 180 180 90 = 180 \<and>
   setServoValue example_platform 0 180 90 fresh_pin
     = setServoPulseUs example_platform 0 fresh_pin \<and>
   setServoValue example_platform 180 180 90 fresh_pin
     = setServoPulseUs example_platform 180 fresh_pin"
proof -
  have cap: "capability fresh_pin AND PIN_CAPABILITY_ANALOG example_platform \<noteq> 0"
    by (simp add: fresh_pin_def example_pin_def example_platform_def)
  have M: "DEVICE_PIN_MAX_SERVO_RANGE example_platform = 180"
    by (simp add: example_platform_def)
  note p = servo_pulse_values [OF M]
  show ?thesis
    using cap M by (simp add: setServoValue_def p)
qed

text \<open>
  Claim C6, amended: it is for the range 2000 and the center 1500 that
  \<^verbatim>\<open>setServoValue(0)\<close> gives a pulse of 500 microseconds and \<^verbatim>\<open>setServoValue(180)\<close> one of
  2500, which become the levels 25 and 128. In general, for an angle of at least 0,
  clamped to 180, and a range and a center of at least 1 (the center not below half the
  range, both at most 1000000), the pulse width in microseconds is
  \<open>((center - range div 2) * 1000 + range * (angle * 1000 div 180)) div 1000\<close>, and
  \<^verbatim>\<open>setServoPulseUs\<close> sets the period to 20000 microseconds if it is not, and the level
  to the pulse width times 1024 over 20000, rounded down.
\<close>

theorem setServoValue_pulse_width:
  assumes cap: "capability s AND PIN_CAPABILITY_ANALOG c \<noteq> 0"
    and M: "DEVICE_PIN_MAX_SERVO_RANGE c = 180"
  shows "setServoValue c 0 2000 1500 s = setServoPulseUs c 500 s \<and>
     setServoValue c 180 2000 1500 s = setServoPulseUs c 2500 s \<and>
     servo_level 500 = 25 \<and> servo_level 2500 = 128 \<and>
     (\<forall>v range' center.
        0 \<le> v \<and> 1 \<le> range' \<and> range' \<le> 1000000 \<and>
        1 \<le> center \<and> range' div 2 \<le> center \<and> center \<le> 1000000 \<longrightarrow>
        setServoValue c v range' center s =
          setServoPulseUs c
            (nat (((center - range' div 2) * 1000 + range' * (min v 180 * 1000 div 180)) div 1000))
            s) \<and>
     (\<forall>pulseWidth.
        setServoPulseUs c pulseWidth s =
          setAnalogValue c (servo_level pulseWidth)
            (if periodUs (initialisePWM c s) \<noteq> 20000
             then pwm_setPeriodUs c 20000 (initialisePWM c s) else initialisePWM c s))"
proof -
  have g: "setServoValue c v range' center s =
          setServoPulseUs c
            (nat (((center - range' div 2) * 1000 + range' * (min v 180 * 1000 div 180)) div 1000))
            s"
    if "0 \<le> v" "1 \<le> range'" "range' \<le> 1000000" "1 \<le> center" "range' div 2 \<le> center"
      "center \<le> 1000000"
    for v range' center
  proof -
    note f = servo_pulse_formula [OF M that]
    have valid: "\<not> (v < 0 \<or> range' < 1 \<or> center < 1)"
      using that by simp
    have md: "servo_pulse c v range' center mod 2 ^ 32 = servo_pulse c v range' center"
      by (rule mod_pos_pos_trivial [OF f(2) f(3)])
    have "setServoValue c v range' center s =
        setServoPulseUs c (nat (servo_pulse c v range' center mod 2 ^ 32)) s"
      using cap valid by (simp add: setServoValue_def)
    also have "\<dots> = setServoPulseUs c (nat (servo_pulse c v range' center)) s"
      by (simp only: md)
    also have "\<dots> = setServoPulseUs c
            (nat (((center - range' div 2) * 1000 + range' * (min v 180 * 1000 div 180)) div 1000))
            s"
      by (simp only: f(1))
    finally show ?thesis .
  qed
  have lo: "setServoValue c 0 2000 1500 s = setServoPulseUs c 500 s"
    using g [of 0 2000 1500] by simp
  have hi: "setServoValue c 180 2000 1500 s = setServoPulseUs c 2500 s"
    using g [of 180 2000 1500] by simp
  have pu: "setServoPulseUs c pulseWidth s =
          setAnalogValue c (servo_level pulseWidth)
            (if periodUs (initialisePWM c s) \<noteq> 20000
             then pwm_setPeriodUs c 20000 (initialisePWM c s) else initialisePWM c s)"
    for pulseWidth
    by (simp add: setServoPulseUs_def Let_def)
  show ?thesis
  proof (intro conjI allI impI)
    show "setServoValue c 0 2000 1500 s = setServoPulseUs c 500 s" by (rule lo)
    show "setServoValue c 180 2000 1500 s = setServoPulseUs c 2500 s" by (rule hi)
    show "servo_level 500 = 25" by (rule servo_level_500)
    show "servo_level 2500 = 128" by (rule servo_level_2500)
  next
    fix v range' center :: int
    assume "0 \<le> v \<and> 1 \<le> range' \<and> range' \<le> 1000000 \<and>
        1 \<le> center \<and> range' div 2 \<le> center \<and> center \<le> 1000000"
    then show "setServoValue c v range' center s =
          setServoPulseUs c
            (nat (((center - range' div 2) * 1000 + range' * (min v 180 * 1000 div 180)) div 1000))
            s"
      by (intro g) simp_all
  next
    fix pulseWidth
    show "setServoPulseUs c pulseWidth s =
          setAnalogValue c (servo_level pulseWidth)
            (if periodUs (initialisePWM c s) \<noteq> 20000
             then pwm_setPeriodUs c 20000 (initialisePWM c s) else initialisePWM c s)"
      by (rule pu)
  qed
qed

theorem setServoValue_pulse_width_witness:
  "capability fresh_pin AND PIN_CAPABILITY_ANALOG example_platform \<noteq> 0 \<and>
   DEVICE_PIN_MAX_SERVO_RANGE example_platform = 180 \<and>
   setServoValue example_platform 0 2000 1500 fresh_pin
     = setServoPulseUs example_platform 500 fresh_pin \<and>
   setServoValue example_platform 180 2000 1500 fresh_pin
     = setServoPulseUs example_platform 2500 fresh_pin \<and>
   setServoValue example_platform 90 2000 1500 fresh_pin
     = setServoPulseUs example_platform 1500 fresh_pin"
proof -
  have cap: "capability fresh_pin AND PIN_CAPABILITY_ANALOG example_platform \<noteq> 0"
    by (simp add: fresh_pin_def example_pin_def example_platform_def)
  have M: "DEVICE_PIN_MAX_SERVO_RANGE example_platform = 180"
    by (simp add: example_platform_def)
  note t = setServoValue_pulse_width [OF cap M]
  have "setServoValue example_platform 90 2000 1500 fresh_pin
     = setServoPulseUs example_platform 1500 fresh_pin"
    using t [THEN conjunct2, THEN conjunct2, THEN conjunct2, THEN conjunct2, THEN conjunct1,
        rule_format, of 90 2000 1500]
    by simp
  with cap M t show ?thesis
    by blast
qed





text \<open>A value halfway between two integers is rounded to the even one.\<close>

lemma round_even_tie:
  assumes "y = of_int f + 1 / 2"
  shows "round_even y = (if even f then f else f + 1)"
proof -
  have "\<lfloor>y\<rfloor> = f"
    unfolding assms by (rule floor_unique) simp_all
  then show ?thesis
    by (simp add: round_even_def Let_def assms)
qed

text \<open>
  The result of a rescaling from the two roundings: the exponents and the rounded
  significands of the product and of the quotient.
\<close>

lemma rescale_eqI:
  fixes k old new m1 m2 r :: int and e1 e2 :: int
  assumes k: "0 \<le> k" "k < 2 ^ 24" and old: "0 < old" "old < 2 ^ 24"
    and new: "0 \<le> new" "new < 2 ^ 24"
    and e1: "2 powi e1 \<le> (of_int (k * new) :: rat)" "(of_int (k * new) :: rat) < 2 powi (e1 + 1)"
    and m1: "round_even (of_int (k * new) / 2 powi (e1 - 23)) = m1"
    and e2: "2 powi e2 \<le> (of_int m1 * 2 powi (e1 - 23) / of_int old :: rat)"
      "(of_int m1 * 2 powi (e1 - 23) / of_int old :: rat) < 2 powi (e2 + 1)"
    and m2: "round_even (of_int m1 * 2 powi (e1 - 23) / of_int old / 2 powi (e2 - 23)) = m2"
    and r: "of_int r \<le> (of_int m2 * 2 powi (e2 - 23) :: rat)"
      "(of_int m2 * 2 powi (e2 - 23) :: rat) < of_int r + 1" "0 \<le> r" "r < 65536"
    and d: "uint d = k"
  shows "rescale old new d = Some (word_of_int r)"
proof -
  have fk: "f32 (of_int k) = of_int k" and fn: "f32 (of_int new) = of_int new"
    and fo: "f32 (of_int old) = of_int old"
    using k old new by (simp_all add: f32_of_int)
  have p0: "(0::rat) \<le> of_int (k * new)"
    using k new by simp
  have f1: "f32 (of_int (k * new)) = of_int m1 * 2 powi (e1 - 23)"
    using e1 p0 m1 by (intro f32_eqI) simp_all
  define q :: rat where "q = of_int m1 * 2 powi (e1 - 23) / of_int old"
  have q0: "0 \<le> q"
    using e2(1) powi_pos [of e2] unfolding q_def by linarith
  have qa: "2 powi e2 \<le> \<bar>q\<bar>" "\<bar>q\<bar> < 2 powi (e2 + 1)"
    using e2 q0 by (simp_all only: q_def abs_of_nonneg)
  have qm: "round_even (q / 2 powi (e2 - 23)) = m2"
    using m2 by (simp only: q_def)
  have "f32 q = of_int m2 * 2 powi (e2 - 23)"
    using qa qm by (rule f32_eqI)
  then have f2: "f32 (of_int m1 * 2 powi (e1 - 23) / of_int old) = of_int m2 * 2 powi (e2 - 23)"
    by (simp only: q_def)
  have t: "f32_to_int (of_int m2 * 2 powi (e2 - 23)) = r"
    using r by (intro f32_to_int_eqI)
  have "f32 (f32 (of_int (uint d)) * f32 (of_int new)) = of_int m1 * 2 powi (e1 - 23)"
    unfolding d fk fn using f1 by simp
  then have "rescale old new d = f32_to_u16 (of_int m2 * 2 powi (e2 - 23))"
    using old(1) unfolding rescale_def by (simp add: fo f2)
  then show ?thesis
    using r(3,4) by (simp add: f32_to_u16_def t)
qed

text \<open>
  The values of the run that leads to the stale duty: the exact single-precision
  results of the rescalings, of the servo level for a pulse of 1500 microseconds and
  of its duty value.
\<close>

lemma rescale_20000: "rescale 20000 32767 (20000 :: u16) = Some 32767"
proof -
  have "rescale 20000 32767 (20000 :: u16) = Some (word_of_int 32767)"
  proof (rule rescale_eqI [where k = 20000 and ?e1.0 = 29 and ?m1.0 = 10239688
        and ?e2.0 = 14 and ?m2.0 = 16776705])
    show "round_even (of_int (20000 * 32767) / 2 powi (29 - 23)) = 10239688"
      using round_even_tie [of "of_int (20000 * 32767) / 2 powi (29 - 23)" 10239687] by simp
    show "round_even (of_int 10239688 * 2 powi (29 - 23) / of_int 20000 / 2 powi (14 - 23))
        = 16776705"
      by (rule round_even_eqI) simp_all
  qed simp_all
  then show ?thesis by simp
qed

lemma rescale_32767: "rescale 20000 32767 (32767 :: u16) = Some 53683"
proof -
  have "rescale 20000 32767 (32767 :: u16) = Some (word_of_int 53683)"
  proof (rule rescale_eqI [where k = 32767 and ?e1.0 = 29 and ?m1.0 = 16776192
        and ?e2.0 = 15 and ?m2.0 = 13743056])
    show "round_even (of_int (32767 * 32767) / 2 powi (29 - 23)) = 16776192"
      by (rule round_even_eqI) simp_all
    show "round_even (of_int 16776192 * 2 powi (29 - 23) / of_int 20000 / 2 powi (15 - 23))
        = 13743056"
      by (rule round_even_eqI) simp_all
  qed simp_all
  then show ?thesis by simp
qed

lemma rescale_18515: "rescale 20000 32767 (18515 :: u16) = Some 30334"
proof -
  have "rescale 20000 32767 (18515 :: u16) = Some (word_of_int 30334)"
  proof (rule rescale_eqI [where k = 18515 and ?e1.0 = 29 and ?m1.0 = 9479391
        and ?e2.0 = 14 and ?m2.0 = 15531034])
    show "round_even (of_int (18515 * 32767) / 2 powi (29 - 23)) = 9479391"
      by (rule round_even_eqI) simp_all
    show "round_even (of_int 9479391 * 2 powi (29 - 23) / of_int 20000 / 2 powi (14 - 23))
        = 15531034"
      by (rule round_even_eqI) simp_all
  qed simp_all
  then show ?thesis by simp
qed

lemma rescale_0: "old \<noteq> 0 \<Longrightarrow> rescale old new (0 :: u16) = Some 0"
  by (simp add: rescale_def f32_to_u16_def f32_to_int_def)

lemma servo_level_1500: "servo_level 1500 = 76"
proof -
  have a: "f32 1500 = 1500" "f32 1536000 = 1536000"
    using f32_of_int [of 1500] f32_of_int [of 1536000] by simp_all
  have "round_even ((384 / 5) / 2 powi (6 - 23)) = 10066330"
    by (rule round_even_eqI) simp_all
  then have "f32 (384 / 5) = of_int 10066330 * 2 powi (6 - 23)"
    by (intro f32_eqI) simp_all
  then have b: "f32 (384 / 5) = 10066330 / 131072"
    by simp
  have "f32_to_int (10066330 / 131072) = 76"
    by (rule f32_to_int_eqI) simp_all
  then show ?thesis
    by (simp add: servo_level_def a b)
qed

lemma duty_20000_76: "duty example_platform 20000 76 = 18515"
proof -
  have a: "f32 76 = 76" "f32 1024 = 1024" "f32 20000 = 20000"
    using f32_of_int [of 76] f32_of_int [of 1024] f32_of_int [of 20000] by simp_all
  have b: "f32 (19 / 256) = 19 / 256"
    using f32_dyadic [of 19 8] by simp
  have c: "f32 (237 / 256) = 237 / 256"
    using f32_dyadic [of 237 8] by simp
  have d: "f32 (148125 / 8) = 148125 / 8"
    using f32_dyadic [of 148125 3] by simp
  have "f32_to_int (148125 / 8) = 18515"
    by (rule f32_to_int_eqI) simp_all
  then show ?thesis
    by (simp add: duty_def example_platform_def a b c d)
qed

lemma free_channels_4:
  "free_channels 4 nm [a, b, c, d] =
     [if a = nm then - 1 else a, if b = nm then - 1 else b, if c = nm then - 1 else c,
      if d = nm then - 1 else d]"
  by (simp add: free_channels_def upt_rec)

text \<open>
  The pin with the stale duty is what the six calls make of the fresh pin.
\<close>

lemma stale_pin_reached:
  "Option.bind (setAnalogPeriodUs example_platform 32767
       (snd (setAnalogValue example_platform 0 fresh_pin)))
     (\<lambda>r2. Option.bind (setAnalogPeriodUs example_platform 32767
          (snd (setServoPulseUs example_platform 1500
             (snd (setDigitalValue example_platform 0 (snd r2))))))
        (\<lambda>r5. Some (snd (setServoPulseUs example_platform 1500 (snd r5)))))
   = Some stale_pin"
proof -
  define s1 where "s1 =
     \<lparr>name = 3, capability = 0x03, status = 0x0008, obj = Some 1, deleteOnRelease = False,
      pinLock = (\<lambda>p. p = 7), port = example_port\<lparr>PIN_CNF := (\<lambda>i. 0x00020000)(3 := 0)\<rparr>,
      pwmSource = True, pwm = Some 1,
      pwmBuffer = [20000, 0, 0, 0], pwmChannelMap = [3, - 1, - 1, - 1], lastUsedChannel = 0,
      sampleRange = 20000, periodUs = 20000,
      played = [[20000, 0, 0, 0]], ownerCalls = [PinConnect 1]\<rparr>"
  define s2 where "s2 = s1\<lparr>pwmBuffer := [32767, 0, 0, 0], sampleRange := 32767,
      periodUs := 32767, played := [[20000, 0, 0, 0], [32767, 0, 0, 0]]\<rparr>"
  define s3 where "s3 = s2\<lparr>status := 0x0002, obj := None,
      port := example_port\<lparr>PIN_CNF := (\<lambda>i. 0x00020000)(3 := 1)\<rparr>,
      pwmChannelMap := [- 1, - 1, - 1, - 1], ownerCalls := [PinConnect 1, ReleasePin 1]\<rparr>"
  define s4 where "s4 = s3\<lparr>status := 0x0008, obj := Some 1,
      pwmBuffer := [32767, 18515, 0, 0], pwmChannelMap := [- 1, 3, - 1, - 1],
      lastUsedChannel := 1, sampleRange := 20000, periodUs := 20000,
      played := [[20000, 0, 0, 0], [32767, 0, 0, 0], [32767, 18515, 0, 0]],
      ownerCalls := [PinConnect 1, ReleasePin 1, PinConnect 1]\<rparr>"
  define s5 where "s5 = s4\<lparr>pwmBuffer := [53683, 30334, 0, 0], sampleRange := 32767,
      periodUs := 32767,
      played := [[20000, 0, 0, 0], [32767, 0, 0, 0], [32767, 18515, 0, 0],
                 [53683, 30334, 0, 0]]\<rparr>"
  have M: "DEVICE_PIN_MAX_OUTPUT example_platform = 1023"
    by (simp add: example_platform_def)
  have d0: "duty example_platform 20000 0 = 20000"
    using duty_level_0 [of 20000 example_platform] by simp
  have cap: "capability s AND PIN_CAPABILITY_ANALOG example_platform \<noteq> 0"
    if "capability s = 3" for s
    using that by (simp add: example_platform_def)
  have v0: "(0::int) \<le> 0" "0 \<le> DEVICE_PIN_MAX_OUTPUT example_platform"
    and v76: "(0::int) \<le> 76" "76 \<le> DEVICE_PIN_MAX_OUTPUT example_platform"
    by (simp_all add: M)
  have p1: "prepare_channel example_platform fresh_pin =
      (0, s1\<lparr>pwmBuffer := [0, 0, 0, 0], played := []\<rparr>)"
    by (simp add: prepare_channel_def allocate_channel_def initialisePWM_def disconnect_def
      isDisconnecting_def clear_sense_and_modes_def set_PIN_CNF_def get_PIN_CNF_def PIN_def
      owner_locked_def find_channel_4 NRF52PIN_PWM_CHANNEL_MAP_SIZE_def
      GPIO_PIN_CNF_SENSE_Msk_def
      fresh_pin_def example_pin_def example_platform_def example_port_def Let_def s1_def)
  have a1: "snd (setAnalogValue example_platform 0 fresh_pin) = s1"
    using setAnalogValue_valid [OF cap v0 p1]
    by (simp add: fresh_pin_def example_pin_def s1_def d0)
  have a2: "setAnalogPeriodUs example_platform 32767 s1 = Some (DEVICE_OK, s2)"
    by (simp add: setAnalogPeriodUs_def playAsync_def Let_def s1_def s2_def example_platform_def
        rescale_20000 rescale_0)
  have a3: "setDigitalValue example_platform 0 s2 = (DEVICE_OK, s3)"
    by (simp add: setDigitalValue_def owner_permits_def disconnect_def release_owner_def
        isDisconnecting_def clear_sense_and_modes_def write_level_def write_OUTCLR_def
        pin_mask_def set_PIN_CNF_def get_PIN_CNF_def PIN_def GPIO_PIN_CNF_SENSE_Msk_def
        free_channels_4 Let_def s1_def s2_def s3_def example_platform_def example_port_def)
  define s3' where "s3' = s3\<lparr>sampleRange := 20000, periodUs := 20000\<rparr>"
  have p4: "prepare_channel example_platform s3' =
      (1, s4\<lparr>pwmBuffer := [32767, 0, 0, 0],
            played := [[20000, 0, 0, 0], [32767, 0, 0, 0]]\<rparr>)"
    by (simp add: prepare_channel_def allocate_channel_def initialisePWM_def disconnect_def
      isDisconnecting_def clear_sense_and_modes_def set_PIN_CNF_def get_PIN_CNF_def PIN_def
      owner_locked_def find_channel_4 NRF52PIN_PWM_CHANNEL_MAP_SIZE_def
      GPIO_PIN_CNF_SENSE_Msk_def
      example_platform_def example_port_def Let_def s1_def s2_def s3_def s3'_def s4_def)
  have c3: "capability s3' = 3"
    by (simp add: s3'_def s3_def s2_def s1_def)
  have a4: "snd (setServoPulseUs example_platform 1500 s3) = s4"
  proof -
    have "setServoPulseUs example_platform 1500 s3 = setAnalogValue example_platform 76 s3'"
      by (simp add: setServoPulseUs_def initialisePWM_def Let_def servo_level_1500 s3'_def
          s3_def s2_def s1_def example_platform_def)
    then show ?thesis
      using setAnalogValue_valid [OF cap [OF c3] v76 p4]
      by (simp add: s4_def s3_def s2_def s1_def duty_20000_76)
  qed
  have a5: "setAnalogPeriodUs example_platform 32767 s4 = Some (DEVICE_OK, s5)"
    by (simp add: setAnalogPeriodUs_def playAsync_def Let_def s1_def s2_def s3_def s4_def s5_def
        example_platform_def rescale_32767 rescale_18515 rescale_0)
  define s5' where "s5' = s5\<lparr>sampleRange := 20000, periodUs := 20000\<rparr>"
  have p6: "prepare_channel example_platform s5' = (1, s5')"
    by (simp add: prepare_channel_def owner_locked_def find_channel_4
      example_platform_def Let_def s1_def s2_def s3_def s4_def s5_def s5'_def)
  have c5: "capability s5' = 3"
    by (simp add: s5'_def s5_def s4_def s3_def s2_def s1_def)
  have a6: "snd (setServoPulseUs example_platform 1500 s5) = stale_pin"
  proof -
    have "setServoPulseUs example_platform 1500 s5 = setAnalogValue example_platform 76 s5'"
      by (simp add: setServoPulseUs_def initialisePWM_def Let_def servo_level_1500 s5'_def
          s5_def s4_def s3_def s2_def s1_def example_platform_def)
    then show ?thesis
      using setAnalogValue_valid [OF cap [OF c5] v76 p6]
      by (simp add: s5'_def s5_def s4_def s3_def s2_def s1_def duty_20000_76 stale_pin_def)
  qed
  show ?thesis
    by (simp add: a1 a2 a3 a4 a5 a6)
qed






end
